theory Spec2Isabelle
  imports Main
begin

section \<open>Contact rows and the storage collaborator\<close>

text \<open>
  The handler of \<^verbatim>\<open>src/routes/identify.ts\<close> reads and writes rows of one table
  through the Prisma client. A row carries the columns the handler reads: \<^verbatim>\<open>id\<close>
  (here \<open>contactId\<close>, since \<open>id\<close> is the identity function of HOL), \<^verbatim>\<open>email\<close>,
  \<^verbatim>\<open>phoneNumber\<close>, \<^verbatim>\<open>linkedId\<close>, \<^verbatim>\<open>linkPrecedence\<close> and \<^verbatim>\<open>createdAt\<close>.
  A nullable column is an \<open>option\<close>; \<^verbatim>\<open>null\<close> and \<^verbatim>\<open>undefined\<close> are both \<open>None\<close>,
  because the handler never tells them apart (\<^verbatim>\<open>??\<close>, \<^verbatim>\<open>!\<close> and \<^verbatim>\<open>typeof\<close> treat both
  alike). A timestamp is its number of milliseconds.
\<close>

datatype precedence = Primary | Secondary

record contact =
  contactId :: int
  email :: "string option"
  phoneNumber :: "string option"
  linkedId :: "int option"
  linkPrecedence :: precedence
  createdAt :: int

text \<open>
  The \<^verbatim>\<open>where\<close> objects the handler builds: \<^verbatim>\<open>{ email }\<close>, \<^verbatim>\<open>{ phoneNumber }\<close>,
  \<^verbatim>\<open>{ id: ... }\<close>, \<^verbatim>\<open>{ linkedId: ... }\<close>, \<^verbatim>\<open>{ email: { in: [...] } }\<close> and
  \<^verbatim>\<open>{ phoneNumber: { in: [...] } }\<close>. A comparison with a value never matches a null
  column.
\<close>

datatype clause =
    IdEq int
  | EmailEq string
  | PhoneNumberEq string
  | LinkedIdEq int
  | EmailIn "string list"
  | PhoneNumberIn "string list"

fun holds :: "clause \<Rightarrow> contact \<Rightarrow> bool" where
  "holds (IdEq i) c = (contactId c = i)"
| "holds (EmailEq e) c = (email c = Some e)"
| "holds (PhoneNumberEq p) c = (phoneNumber c = Some p)"
| "holds (LinkedIdEq i) c = (linkedId c = Some i)"
| "holds (EmailIn es) c = (case email c of None \<Rightarrow> False | Some e \<Rightarrow> e \<in> set es)"
| "holds (PhoneNumberIn ps) c = (case phoneNumber c of None \<Rightarrow> False | Some p \<Rightarrow> p \<in> set ps)"

definition matchesOR :: "clause list \<Rightarrow> contact \<Rightarrow> bool" where
  "matchesOR OR c = (\<exists>cl \<in> set OR. holds cl c)"

text \<open>
  The calls the handler makes on \<^verbatim>\<open>prisma.contact\<close>, with their arguments. The store
  keeps the list of its rows in the order an unordered \<^verbatim>\<open>findMany\<close> returns them, the next
  identifier, and the log of the calls it has received.
\<close>

datatype dbcall =
    FindMany "clause list"
  | Create "string option" "string option" precedence "int option"
  | Update int precedence "int option"

record store =
  rows :: "contact list"
  nextId :: int
  calls :: "dbcall list"

datatype failure = StorageFailure

text \<open>
  Every call may be rejected by the store: \<open>fails\<close> says which calls of a request throw.
  A rejected call changes no row.
\<close>

definition findMany ::
  "(dbcall \<Rightarrow> bool) \<Rightarrow> clause list \<Rightarrow> store \<Rightarrow> (failure + contact list) \<times> store" where
  "findMany fails OR db =
     (let db' = db\<lparr>calls := calls db @ [FindMany OR]\<rparr>
      in if fails (FindMany OR) then (Inl StorageFailure, db')
         else (Inr (filter (matchesOR OR) (rows db)), db'))"

text \<open>
  Modelled from the spec: the Prisma schema is not among the source files, so what
  \<^verbatim>\<open>create\<close> fills in by itself follows the spec's data model: \<^verbatim>\<open>id\<close> is "unique,
  monotonically assigned" (the store's next identifier) and \<^verbatim>\<open>createdAt\<close> is the time of
  the insert, \<open>now\<close>. The columns the call names are stored as given.
\<close>

definition create ::
  "(dbcall \<Rightarrow> bool) \<Rightarrow> int \<Rightarrow> string option \<Rightarrow> string option \<Rightarrow> precedence \<Rightarrow> int option
     \<Rightarrow> store \<Rightarrow> (failure + contact) \<times> store" where
  "create fails now e p prec lid db =
     (let db' = db\<lparr>calls := calls db @ [Create e p prec lid]\<rparr>;
          created = \<lparr>contactId = nextId db, email = e, phoneNumber = p, linkedId = lid,
                     linkPrecedence = prec, createdAt = now\<rparr>
      in if fails (Create e p prec lid) then (Inl StorageFailure, db')
         else (Inr created, db'\<lparr>rows := rows db @ [created], nextId := nextId db + 1\<rparr>))"

text \<open>
  \<^verbatim>\<open>update({ where: { id }, data: { linkPrecedence, linkedId } })\<close>: Prisma throws when
  no row has the identifier.
\<close>

definition update ::
  "(dbcall \<Rightarrow> bool) \<Rightarrow> int \<Rightarrow> precedence \<Rightarrow> int option \<Rightarrow> store \<Rightarrow> (failure + unit) \<times> store" where
  "update fails i prec lid db =
     (let db' = db\<lparr>calls := calls db @ [Update i prec lid]\<rparr>
      in if fails (Update i prec lid) \<or> i \<notin> contactId ` set (rows db) then (Inl StorageFailure, db')
         else (Inr (),
               db'\<lparr>rows := map (\<lambda>r. if contactId r = i
                                     then r\<lparr>linkPrecedence := prec, linkedId := lid\<rparr> else r)
                               (rows db)\<rparr>))"

text \<open>
  \<^verbatim>\<open>await Promise.all(toDowngrade.map((c) => prisma.contact.update(...)))\<close>: every
  update is issued, each succeeds or fails by itself, and the \<^verbatim>\<open>await\<close> throws when one of
  them was rejected. There is no transaction around them.
\<close>

fun promiseAllUpdate ::
  "(dbcall \<Rightarrow> bool) \<Rightarrow> contact list \<Rightarrow> int \<Rightarrow> store \<Rightarrow> (failure + unit) \<times> store" where
  "promiseAllUpdate fails [] pid db = (Inr (), db)"
| "promiseAllUpdate fails (c # cs) pid db =
     (case update fails (contactId c) Secondary (Some pid) db of
        (r, db') \<Rightarrow>
          (case promiseAllUpdate fails cs pid db' of
             (rs, db'') \<Rightarrow> ((case r of Inl e \<Rightarrow> Inl e | Inr u \<Rightarrow> rs), db'')))"

section \<open>The helpers of the handler\<close>

text \<open>\<^verbatim>\<open>new Set(arr)\<close> keeps the first occurrence of every value, in insertion order.\<close>

fun setInsertAll :: "'a list \<Rightarrow> 'a list \<Rightarrow> 'a list" where
  "setInsertAll seen [] = seen"
| "setInsertAll seen (v # vs) = setInsertAll (if v \<in> set seen then seen else seen @ [v]) vs"

primrec nonNull :: "'a option list \<Rightarrow> 'a list" where
  "nonNull [] = []"
| "nonNull (v # vs) = (case v of None \<Rightarrow> nonNull vs | Some x \<Rightarrow> x # nonNull vs)"

definition uniqueNonNull :: "string option list \<Rightarrow> string list" where
  "uniqueNonNull arr = setInsertAll [] (nonNull arr)"

text \<open>JavaScript's truthiness of a \<^verbatim>\<open>string | null | undefined\<close>: the empty string is falsy.\<close>

definition truthy :: "string option \<Rightarrow> bool" where
  "truthy v = (case v of None \<Rightarrow> False | Some s \<Rightarrow> s \<noteq> [])"

definition buildWhereOrForSingleLookup :: "string option \<Rightarrow> string option \<Rightarrow> clause list" where
  "buildWhereOrForSingleLookup email' phoneNumber' =
     (let OR = (case email' of Some e \<Rightarrow> [EmailEq e] | None \<Rightarrow> [])
               @ (case phoneNumber' of Some p \<Rightarrow> [PhoneNumberEq p] | None \<Rightarrow> [])
      in if length OR > 0 then OR else [IdEq (- 1)])"

definition whereExpansion :: "contact list \<Rightarrow> string option \<Rightarrow> string option \<Rightarrow> clause list" where
  "whereExpansion existingContacts email' phoneNumber' =
     (let seedsEmails = uniqueNonNull (map email existingContacts);
          seedsPhones = uniqueNonNull (map phoneNumber existingContacts);
          orForExpansion = (if length seedsEmails > 0 then [EmailIn seedsEmails] else [])
                           @ (if length seedsPhones > 0 then [PhoneNumberIn seedsPhones] else [])
      in if length orForExpansion > 0 then orForExpansion
         else buildWhereOrForSingleLookup email' phoneNumber')"

text \<open>
  \<^verbatim>\<open>allLinkedContacts.reduce((oldest, curr) => curr.createdAt < oldest.createdAt ? curr : oldest,
  allLinkedContacts[0]!)\<close>, called on a list the handler has checked to be non-empty.
\<close>

definition older :: "contact \<Rightarrow> contact \<Rightarrow> contact" where
  "older oldest current = (if createdAt current < createdAt oldest then current else oldest)"

definition primaryOf :: "contact list \<Rightarrow> contact" where
  "primaryOf allLinkedContacts = foldl older (hd allLinkedContacts) allLinkedContacts"

definition toDowngrade :: "contact list \<Rightarrow> contact \<Rightarrow> contact list" where
  "toDowngrade allLinkedContacts primary =
     filter (\<lambda>c. contactId c \<noteq> contactId primary
                 \<and> (linkPrecedence c \<noteq> Secondary \<or> linkedId c \<noteq> Some (contactId primary)))
            allLinkedContacts"

definition hasSameTuple :: "string option \<Rightarrow> string option \<Rightarrow> contact list \<Rightarrow> bool" where
  "hasSameTuple email' phoneNumber' allLinkedContacts =
     (\<exists>c \<in> set allLinkedContacts. email' = email c \<and> phoneNumber' = phoneNumber c)"

definition alreadyHasEmail :: "string option \<Rightarrow> contact list \<Rightarrow> bool" where
  "alreadyHasEmail email' allLinkedContacts =
     (if truthy email' then (\<exists>c \<in> set allLinkedContacts. email c = email') else True)"

definition alreadyHasPhone :: "string option \<Rightarrow> contact list \<Rightarrow> bool" where
  "alreadyHasPhone phoneNumber' allLinkedContacts =
     (if truthy phoneNumber' then (\<exists>c \<in> set allLinkedContacts. phoneNumber c = phoneNumber')
      else True)"

definition introducesNewInfo :: "string option \<Rightarrow> string option \<Rightarrow> contact list \<Rightarrow> bool" where
  "introducesNewInfo email' phoneNumber' allLinkedContacts =
     (\<not> hasSameTuple email' phoneNumber' allLinkedContacts
      \<and> ((truthy email' \<and> \<not> alreadyHasEmail email' allLinkedContacts)
         \<or> (truthy phoneNumber' \<and> \<not> alreadyHasPhone phoneNumber' allLinkedContacts)))"

definition prependIfPresent :: "string list \<Rightarrow> string option \<Rightarrow> string list" where
  "prependIfPresent arr val =
     (case val of
        None \<Rightarrow> arr
      | Some v \<Rightarrow> if v = [] then arr else v # filter (\<lambda>x. x \<noteq> v) arr)"

section \<open>Responses\<close>

datatype json =
    JNumber int
  | JString string
  | JArray "json list"
  | JObject "(string \<times> json) list"

type_synonym response = "nat \<times> json"

definition contactBody :: "int \<Rightarrow> string list \<Rightarrow> string list \<Rightarrow> int list \<Rightarrow> json" where
  "contactBody primaryContatctId emails phoneNumbers secondaryContactIds =
     JObject [(''contact'',
       JObject [(''primaryContatctId'', JNumber primaryContatctId),
                (''emails'', JArray (map JString emails)),
                (''phoneNumbers'', JArray (map JString phoneNumbers)),
                (''secondaryContactIds'', JArray (map JNumber secondaryContactIds))])]"

definition badRequest :: response where
  "badRequest = (400, JObject [(''error'', JString ''Email or phoneNumber required'')])"

definition internalServerError :: response where
  "internalServerError = (500, JObject [(''error'', JString ''Internal Server Error'')])"

section \<open>The handler of POST /identify\<close>

text \<open>
  STEP 2 and the defensive branch of STEP 3 are the same code: create a primary from the
  request and answer with it alone.
\<close>

definition createPrimary ::
  "(dbcall \<Rightarrow> bool) \<Rightarrow> int \<Rightarrow> string option \<Rightarrow> string option \<Rightarrow> store \<Rightarrow> response \<times> store" where
  "createPrimary fails now email' phoneNumber' db =
     (case create fails now email' phoneNumber' Primary None db of
        (Inl err, db') \<Rightarrow> (internalServerError, db')
      | (Inr created, db') \<Rightarrow>
          ((200, contactBody (contactId created) (uniqueNonNull [email created])
                   (uniqueNonNull [phoneNumber created]) []),
           db'))"

text \<open>STEP 7 and STEP 8: the snapshot of the primary and the rows linked to it, formatted.\<close>

definition snapshot ::
  "(dbcall \<Rightarrow> bool) \<Rightarrow> contact \<Rightarrow> store \<Rightarrow> response \<times> store" where
  "snapshot fails primary db =
     (case findMany fails [IdEq (contactId primary), LinkedIdEq (contactId primary)] db of
        (Inl err, db') \<Rightarrow> (internalServerError, db')
      | (Inr finalContacts, db') \<Rightarrow>
          (let finalEmails = uniqueNonNull (map email finalContacts);
               finalPhones = uniqueNonNull (map phoneNumber finalContacts);
               secondaryIds = map contactId
                                (filter (\<lambda>c. linkPrecedence c = Secondary) finalContacts);
               orderedEmails = prependIfPresent finalEmails (email primary);
               orderedPhones = prependIfPresent finalPhones (phoneNumber primary)
           in ((200, contactBody (contactId primary) orderedEmails orderedPhones secondaryIds),
               db')))"

text \<open>STEP 4 to STEP 6 on a non-empty component, then the snapshot.\<close>

definition merge ::
  "(dbcall \<Rightarrow> bool) \<Rightarrow> int \<Rightarrow> string option \<Rightarrow> string option \<Rightarrow> contact list \<Rightarrow> store
     \<Rightarrow> response \<times> store" where
  "merge fails now email' phoneNumber' allLinkedContacts db =
     (let primary = primaryOf allLinkedContacts;
          downgrades = toDowngrade allLinkedContacts primary
      in case (if length downgrades > 0
               then promiseAllUpdate fails downgrades (contactId primary) db
               else (Inr (), db)) of
           (Inl err, db') \<Rightarrow> (internalServerError, db')
         | (Inr u, db') \<Rightarrow>
             (if introducesNewInfo email' phoneNumber' allLinkedContacts
              then (case create fails now email' phoneNumber' Secondary
                           (Some (contactId primary)) db' of
                      (Inl err, db'') \<Rightarrow> (internalServerError, db'')
                    | (Inr created, db'') \<Rightarrow> snapshot fails primary db'')
              else snapshot fails primary db'))"

definition identify ::
  "(dbcall \<Rightarrow> bool) \<Rightarrow> int \<Rightarrow> string option \<Rightarrow> string option \<Rightarrow> store \<Rightarrow> response \<times> store" where
  "identify fails now email' phoneNumber' db =
     (if (\<not> truthy email' \<or> email' = Some []) \<and> (\<not> truthy phoneNumber' \<or> phoneNumber' = Some [])
      then (badRequest, db)
      else
        (case findMany fails (buildWhereOrForSingleLookup email' phoneNumber') db of
           (Inl err, db1) \<Rightarrow> (internalServerError, db1)
         | (Inr existingContacts, db1) \<Rightarrow>
             if length existingContacts = 0
             then createPrimary fails now email' phoneNumber' db1
             else
               (case findMany fails (whereExpansion existingContacts email' phoneNumber') db1 of
                  (Inl err, db2) \<Rightarrow> (internalServerError, db2)
                | (Inr allLinkedContacts, db2) \<Rightarrow>
                    if length allLinkedContacts = 0
                    then createPrimary fails now email' phoneNumber' db2
                    else merge fails now email' phoneNumber' allLinkedContacts db2)))"

text \<open>The store no call of which fails, and the empty store.\<close>

definition noFailure :: "dbcall \<Rightarrow> bool" where
  "noFailure call = False"

definition emptyStore :: store where
  "emptyStore = \<lparr>rows = [], nextId = 1, calls = []\<rparr>"

text \<open>
  The two reads of STEP 1 and STEP 3 as functions of the rows: the seeds of a request, and
  the rows the expansion query returns for them.
\<close>

definition seedsOf :: "string option \<Rightarrow> string option \<Rightarrow> contact list \<Rightarrow> contact list" where
  "seedsOf email' phoneNumber' rs = filter (matchesOR (buildWhereOrForSingleLookup email' phoneNumber')) rs"

definition linkedOf :: "string option \<Rightarrow> string option \<Rightarrow> contact list \<Rightarrow> contact list" where
  "linkedOf email' phoneNumber' rs =
     filter (matchesOR (whereExpansion (seedsOf email' phoneNumber' rs) email' phoneNumber')) rs"

text \<open>The read of STEP 7 as a function of the rows: the primary's row and the rows linked to it.\<close>

definition finalContactsOf :: "int \<Rightarrow> contact list \<Rightarrow> contact list" where
  "finalContactsOf pid rs = filter (matchesOR [IdEq pid, LinkedIdEq pid]) rs"

section \<open>The vocabulary of the specification\<close>

text \<open>
  Two rows share a value when they carry the same email or the same phone number (a null
  column is no value). A row is connected to another when a chain of rows of the table
  leads from one to the other, each sharing a value with the next; the component of some
  seeds is everything connected to one of them.
\<close>

definition sharesWith :: "contact \<Rightarrow> contact \<Rightarrow> bool" where
  "sharesWith c d =
     ((email c \<noteq> None \<and> email c = email d) \<or> (phoneNumber c \<noteq> None \<and> phoneNumber c = phoneNumber d))"

inductive connected :: "contact list \<Rightarrow> contact \<Rightarrow> contact \<Rightarrow> bool" for rs :: "contact list" where
  here: "c \<in> set rs \<Longrightarrow> connected rs c c"
| hop: "connected rs c d \<Longrightarrow> e \<in> set rs \<Longrightarrow> sharesWith d e \<Longrightarrow> connected rs c e"

definition componentOf :: "contact list \<Rightarrow> contact list \<Rightarrow> contact set" where
  "componentOf rs seeds = {d. \<exists>s \<in> set seeds. connected rs s d}"

text \<open>
  The invariants of the data model: every component has exactly one primary, every other
  row of the component is a secondary whose \<open>linkedId\<close> is that primary's identifier, and
  no secondary is linked to a secondary.
\<close>

definition onePrimaryPerComponent :: "contact list \<Rightarrow> bool" where
  "onePrimaryPerComponent rs =
     (\<forall>c \<in> set rs. \<exists>!p. connected rs c p \<and> linkPrecedence p = Primary)"

definition othersLinkedToPrimary :: "contact list \<Rightarrow> bool" where
  "othersLinkedToPrimary rs =
     (\<forall>c \<in> set rs. \<forall>p. connected rs c p \<and> linkPrecedence p = Primary \<and> c \<noteq> p
        \<longrightarrow> linkPrecedence c = Secondary \<and> linkedId c = Some (contactId p))"

definition noSecondaryChain :: "contact list \<Rightarrow> bool" where
  "noSecondaryChain rs =
     (\<forall>c \<in> set rs. \<forall>d \<in> set rs.
        linkPrecedence c = Secondary \<and> linkedId c = Some (contactId d)
        \<longrightarrow> linkPrecedence d \<noteq> Secondary)"

definition componentInvariants :: "contact list \<Rightarrow> bool" where
  "componentInvariants rs =
     (onePrimaryPerComponent rs \<and> othersLinkedToPrimary rs \<and> noSecondaryChain rs)"

text \<open>
  The shape the specification gives a successful answer:
  \<^verbatim>\<open>{ primaryContactId: int, emails: string[], phoneNumbers: string[], secondaryContactIds: int[] }\<close>.
\<close>

definition specifiedShape :: "json \<Rightarrow> bool" where
  "specifiedShape body =
     (\<exists>pid es ps ss.
        body = JObject [(''primaryContactId'', JNumber pid),
                        (''emails'', JArray (map JString es)),
                        (''phoneNumbers'', JArray (map JString ps)),
                        (''secondaryContactIds'', JArray (map JNumber ss))])"

text \<open>
  The primary a request answers with: the oldest of the rows the expansion returns, or the
  row the request creates when no row matches.
\<close>

definition answeredPrimary :: "int \<Rightarrow> string option \<Rightarrow> string option \<Rightarrow> store \<Rightarrow> contact" where
  "answeredPrimary now email' phoneNumber' db =
     (if linkedOf email' phoneNumber' (rows db) = []
      then \<lparr>contactId = nextId db, email = email', phoneNumber = phoneNumber', linkedId = None,
            linkPrecedence = Primary, createdAt = now\<rparr>
      else primaryOf (linkedOf email' phoneNumber' (rows db)))"

text \<open>
  A row after the downgrade pass over \<open>cs\<close>: the rows whose update was accepted are
  secondaries of \<open>pid\<close>, the others are as they were.
\<close>

definition downgraded :: "(dbcall \<Rightarrow> bool) \<Rightarrow> contact list \<Rightarrow> int \<Rightarrow> contact \<Rightarrow> contact" where
  "downgraded fails cs pid r =
     (if \<exists>c \<in> set cs. contactId c = contactId r \<and> \<not> fails (Update (contactId c) Secondary (Some pid))
      then r\<lparr>linkPrecedence := Secondary, linkedId := Some pid\<rparr> else r)"

section \<open>Example stores\<close>

text \<open>
  A store reached from the empty one by three requests, at times 1, 2 and 3:
  \<^verbatim>\<open>{email: "e1", phoneNumber: "p1"}\<close> creates the primary 1,
  \<^verbatim>\<open>{email: "e1", phoneNumber: "p2"}\<close> adds the secondary 2 and
  \<^verbatim>\<open>{email: "e3", phoneNumber: "p2"}\<close> adds the secondary 3. Row 3 shares a value with
  row 2 only, and row 2 shares one with row 1.
\<close>

definition contactA :: contact where
  "contactA = \<lparr>contactId = 1, email = Some ''e1'', phoneNumber = Some ''p1'', linkedId = None,
                linkPrecedence = Primary, createdAt = 1\<rparr>"

definition contactB :: contact where
  "contactB = \<lparr>contactId = 2, email = Some ''e1'', phoneNumber = Some ''p2'', linkedId = Some 1,
                linkPrecedence = Secondary, createdAt = 2\<rparr>"

definition contactC :: contact where
  "contactC = \<lparr>contactId = 3, email = Some ''e3'', phoneNumber = Some ''p2'', linkedId = Some 1,
                linkPrecedence = Secondary, createdAt = 3\<rparr>"

definition chainStore :: store where
  "chainStore = \<lparr>rows = [contactA, contactB, contactC], nextId = 4, calls = []\<rparr>"

text \<open>
  Two independent primaries, the younger with a secondary of its own. A request naming
  the email of the elder and the phone number of the younger merges them: rows 2 and 3
  are to become secondaries of 1.
\<close>

definition elder :: contact where
  "elder = \<lparr>contactId = 1, email = Some ''e1'', phoneNumber = Some ''p1'', linkedId = None,
             linkPrecedence = Primary, createdAt = 1\<rparr>"

definition younger :: contact where
  "younger = \<lparr>contactId = 2, email = Some ''e2'', phoneNumber = Some ''p2'', linkedId = None,
               linkPrecedence = Primary, createdAt = 2\<rparr>"

definition youngerSecondary :: contact where
  "youngerSecondary = \<lparr>contactId = 3, email = Some ''e2'', phoneNumber = Some ''p3'',
                        linkedId = Some 2, linkPrecedence = Secondary, createdAt = 3\<rparr>"

definition mergeStore :: store where
  "mergeStore = \<lparr>rows = [elder, younger, youngerSecondary], nextId = 4, calls = []\<rparr>"

text \<open>The store that rejects the update of row 3 and nothing else.\<close>

definition rejectUpdateOf3 :: "dbcall \<Rightarrow> bool" where
  "rejectUpdateOf3 call = (call = Update 3 Secondary (Some 1))"

text \<open>The store that rejects the snapshot read of the component of row 1 and nothing else.\<close>

definition rejectSnapshotOf1 :: "dbcall \<Rightarrow> bool" where
  "rejectSnapshotOf1 call = (call = FindMany [IdEq 1, LinkedIdEq 1])"

text \<open>A store with one primary, whose phone number a later request repeats.\<close>

definition knownPhoneStore :: store where
  "knownPhoneStore =
     \<lparr>rows = [\<lparr>contactId = 1, email = Some ''a'', phoneNumber = Some ''123'', linkedId = None,
                linkPrecedence = Primary, createdAt = 1\<rparr>],
      nextId = 2, calls = []\<rparr>"

text \<open>
  A primary whose email is the empty string and its secondary, in a table that returns
  the secondary first (the handler's \<^verbatim>\<open>findMany\<close> calls name no order).
\<close>

definition reorderedStore :: store where
  "reorderedStore =
     \<lparr>rows = [\<lparr>contactId = 2, email = Some ''x'', phoneNumber = Some ''1'', linkedId = Some 1,
                linkPrecedence = Secondary, createdAt = 2\<rparr>,
              \<lparr>contactId = 1, email = Some [], phoneNumber = Some ''1'', linkedId = None,
                linkPrecedence = Primary, createdAt = 1\<rparr>],
      nextId = 3, calls = []\<rparr>"

text \<open>
  A primary whose email is the empty string beside an unrelated primary, and a primary
  whose phone number is the empty string.
\<close>

definition emptyEmailStore :: store where
  "emptyEmailStore =
     \<lparr>rows = [\<lparr>contactId = 1, email = Some [], phoneNumber = Some ''7'', linkedId = None,
                linkPrecedence = Primary, createdAt = 1\<rparr>,
              \<lparr>contactId = 2, email = Some ''b'', phoneNumber = Some ''8'', linkedId = None,
                linkPrecedence = Primary, createdAt = 2\<rparr>],
      nextId = 3, calls = []\<rparr>"

definition emptyPhoneStore :: store where
  "emptyPhoneStore =
     \<lparr>rows = [\<lparr>contactId = 1, email = Some ''y'', phoneNumber = Some [], linkedId = None,
                linkPrecedence = Primary, createdAt = 1\<rparr>],
      nextId = 2, calls = []\<rparr>"

section \<open>Auxiliary facts\<close>

lemma set_setInsertAll: "set (setInsertAll seen vs) = set seen \<union> set vs"
  by (induction vs arbitrary: seen) auto

lemma distinct_setInsertAll: "distinct seen \<Longrightarrow> distinct (setInsertAll seen vs)"
  by (induction vs arbitrary: seen) auto

lemma set_nonNull: "set (nonNull vs) = {x. Some x \<in> set vs}"
  by (induction vs) (auto split: option.splits)

lemma set_uniqueNonNull: "set (uniqueNonNull arr) = {x. Some x \<in> set arr}"
  by (simp add: uniqueNonNull_def set_setInsertAll set_nonNull)

lemma distinct_uniqueNonNull: "distinct (uniqueNonNull arr)"
  by (simp add: uniqueNonNull_def distinct_setInsertAll)

lemma distinct_prependIfPresent: "distinct arr \<Longrightarrow> distinct (prependIfPresent arr val)"
  by (auto simp: prependIfPresent_def split: option.splits)

lemma hd_prependIfPresent:
  "v \<noteq> [] \<Longrightarrow> prependIfPresent arr (Some v) = v # filter (\<lambda>x. x \<noteq> v) arr"
  by (simp add: prependIfPresent_def)

lemma foldl_older_first:
  "\<exists>pre post. a # xs = pre @ foldl older a xs # post
     \<and> (\<forall>c \<in> set pre. createdAt (foldl older a xs) < createdAt c)
     \<and> (\<forall>c \<in> set post. createdAt (foldl older a xs) \<le> createdAt c)"
proof (induction xs arbitrary: a)
  case Nil
  show ?case by (rule exI [of _ "[]"]) simp
next
  case (Cons x xs)
  let ?m = "foldl older (older a x) xs"
  from Cons.IH [of "older a x"] obtain pre post where
    dec: "older a x # xs = pre @ ?m # post"
    and lt: "\<forall>c \<in> set pre. createdAt ?m < createdAt c"
    and le: "\<forall>c \<in> set post. createdAt ?m \<le> createdAt c"
    by blast
  show ?case
  proof (cases pre)
    case Nil
    with dec have m: "?m = older a x" and post: "post = xs" by auto
    show ?thesis
    proof (cases "createdAt x < createdAt a")
      case True
      then have "a # x # xs = [a] @ ?m # post" using m post by (simp add: older_def)
      moreover have "\<forall>c \<in> set [a]. createdAt ?m < createdAt c" using True m by (simp add: older_def)
      ultimately show ?thesis using le by (metis foldl_Cons)
    next
      case False
      then have "a # x # xs = [] @ ?m # (x # post)" using m post by (simp add: older_def)
      moreover have "\<forall>c \<in> set (x # post). createdAt ?m \<le> createdAt c"
        using False m le by (simp add: older_def)
      ultimately show ?thesis by (metis foldl_Cons empty_iff list.set(1))
    qed
  next
    case (Cons y pre')
    with dec have y: "y = older a x" and xs: "xs = pre' @ ?m # post" by auto
    have "createdAt ?m < createdAt (older a x)" using lt Cons y by simp
    then have "createdAt ?m < createdAt a" "createdAt ?m < createdAt x"
      by (auto simp: older_def split: if_splits)
    moreover have "a # x # xs = (a # x # pre') @ ?m # post" using xs by simp
    moreover have "\<forall>c \<in> set pre'. createdAt ?m < createdAt c" using lt Cons by simp
    ultimately have "a # x # xs = (a # x # pre') @ ?m # post
       \<and> (\<forall>c \<in> set (a # x # pre'). createdAt ?m < createdAt c)
       \<and> (\<forall>c \<in> set post. createdAt ?m \<le> createdAt c)" using le by simp
    then show ?thesis by (metis foldl_Cons)
  qed
qed

lemma primaryOf_Cons: "primaryOf (a # xs) = foldl older a xs"
  by (simp add: primaryOf_def older_def)

lemma primaryOf_first:
  assumes "all \<noteq> []"
  shows "\<exists>pre post. all = pre @ primaryOf all # post
     \<and> (\<forall>c \<in> set pre. createdAt (primaryOf all) < createdAt c)
     \<and> (\<forall>c \<in> set post. createdAt (primaryOf all) \<le> createdAt c)"
proof -
  from assms obtain a xs where "all = a # xs" by (cases all) auto
  then show ?thesis using foldl_older_first [of a xs] by (simp add: primaryOf_Cons)
qed

lemma primaryOf_in: "all \<noteq> [] \<Longrightarrow> primaryOf all \<in> set all"
  using primaryOf_first [of all] by (metis in_set_conv_decomp)

lemma contactId_downgraded [simp]: "contactId (downgraded fails cs pid r) = contactId r"
  by (simp add: downgraded_def)

lemma ids_map_if:
  "contactId ` set (map (\<lambda>r. if P r then r\<lparr>linkPrecedence := a, linkedId := b\<rparr> else r) rs)
     = contactId ` set rs"
  by (induction rs) auto

lemma update_char:
  "i \<in> contactId ` set (rows db) \<Longrightarrow>
   update fails i prec lid db =
     ((if fails (Update i prec lid) then Inl StorageFailure else Inr ()),
      db\<lparr>rows := map (\<lambda>r. if contactId r = i \<and> \<not> fails (Update i prec lid)
                          then r\<lparr>linkPrecedence := prec, linkedId := lid\<rparr> else r) (rows db),
         calls := calls db @ [Update i prec lid]\<rparr>)"
  by (cases "fails (Update i prec lid)") (simp_all add: update_def Let_def)

lemma promiseAllUpdate_char:
  "contactId ` set cs \<subseteq> contactId ` set (rows db) \<Longrightarrow>
   promiseAllUpdate fails cs pid db =
     ((if \<exists>c \<in> set cs. fails (Update (contactId c) Secondary (Some pid))
       then Inl StorageFailure else Inr ()),
      db\<lparr>rows := map (downgraded fails cs pid) (rows db),
         calls := calls db @ map (\<lambda>c. Update (contactId c) Secondary (Some pid)) cs\<rparr>)"
proof (induction cs arbitrary: db)
  case Nil
  show ?case by (simp add: downgraded_def)
next
  case (Cons c cs)
  let ?u = "Update (contactId c) Secondary (Some pid)"
  let ?db' = "db\<lparr>rows := map (\<lambda>r. if contactId r = contactId c \<and> \<not> fails ?u
                          then r\<lparr>linkPrecedence := Secondary, linkedId := Some pid\<rparr> else r) (rows db),
         calls := calls db @ [?u]\<rparr>"
  have cin: "contactId c \<in> contactId ` set (rows db)" using Cons.prems by auto
  have u: "update fails (contactId c) Secondary (Some pid) db =
             ((if fails ?u then Inl StorageFailure else Inr ()), ?db')"
    using update_char [OF cin] by simp
  have ids: "contactId ` set (rows ?db') = contactId ` set (rows db)"
  proof -
    have "rows ?db' = map (\<lambda>r. if contactId r = contactId c \<and> \<not> fails ?u
                          then r\<lparr>linkPrecedence := Secondary, linkedId := Some pid\<rparr> else r) (rows db)"
      by simp
    then show ?thesis by (simp only: ids_map_if)
  qed
  have sub: "contactId ` set cs \<subseteq> contactId ` set (rows ?db')"
    using Cons.prems unfolding ids by auto
  have comp: "map (downgraded fails cs pid) (rows ?db') = map (downgraded fails (c # cs) pid) (rows db)"
    by (auto simp: downgraded_def)
  show ?case
    unfolding promiseAllUpdate.simps u
    using Cons.IH [OF sub] comp
    by (auto simp del: store.simps)
qed

lemma matchesOR_single:
  "email' \<noteq> None \<or> phoneNumber' \<noteq> None \<Longrightarrow>
   matchesOR (buildWhereOrForSingleLookup email' phoneNumber') c =
     ((email' \<noteq> None \<and> email c = email') \<or> (phoneNumber' \<noteq> None \<and> phoneNumber c = phoneNumber'))"
  by (cases email'; cases phoneNumber') (auto simp: matchesOR_def buildWhereOrForSingleLookup_def)

lemma matchesOR_expansion:
  assumes "\<exists>s \<in> set seeds. email s \<noteq> None \<or> phoneNumber s \<noteq> None"
  shows "matchesOR (whereExpansion seeds email' phoneNumber') d = (\<exists>s \<in> set seeds. sharesWith s d)"
proof -
  let ?es = "uniqueNonNull (map email seeds)" and ?ps = "uniqueNonNull (map phoneNumber seeds)"
  have es: "set ?es = {v. \<exists>s \<in> set seeds. email s = Some v}"
    by (auto simp: set_uniqueNonNull intro: rev_image_eqI)
  have ps: "set ?ps = {v. \<exists>s \<in> set seeds. phoneNumber s = Some v}"
    by (auto simp: set_uniqueNonNull intro: rev_image_eqI)
  from assms have ne: "?es \<noteq> [] \<or> ?ps \<noteq> []"
    using es ps by (metis (mono_tags, lifting) empty_iff empty_set mem_Collect_eq option.exhaust)
  have inE: "holds (EmailIn ?es) d = (\<exists>s \<in> set seeds. email s \<noteq> None \<and> email s = email d)"
    using es by (cases "email d") auto
  have inP: "holds (PhoneNumberIn ?ps) d = (\<exists>s \<in> set seeds. phoneNumber s \<noteq> None \<and> phoneNumber s = phoneNumber d)"
    using ps by (cases "phoneNumber d") auto
  have emptyE: "?es = [] \<Longrightarrow> \<not> (\<exists>s \<in> set seeds. email s \<noteq> None \<and> email s = email d)"
    using es by auto
  have emptyP: "?ps = [] \<Longrightarrow> \<not> (\<exists>s \<in> set seeds. phoneNumber s \<noteq> None \<and> phoneNumber s = phoneNumber d)"
    using ps by auto
  have W: "matchesOR (whereExpansion seeds email' phoneNumber') d =
            ((?es \<noteq> [] \<and> holds (EmailIn ?es) d) \<or> (?ps \<noteq> [] \<and> holds (PhoneNumberIn ?ps) d))"
    using ne by (auto simp: matchesOR_def whereExpansion_def Let_def simp del: holds.simps)
  show ?thesis
    unfolding W sharesWith_def inE inP using emptyE emptyP by blast
qed

lemma seeds_have_value:
  assumes "email' \<noteq> None \<or> phoneNumber' \<noteq> None"
    and "s \<in> set (seedsOf email' phoneNumber' rs)"
  shows "s \<in> set rs \<and> (email s \<noteq> None \<or> phoneNumber s \<noteq> None) \<and> sharesWith s s"
  using assms by (auto simp: seedsOf_def matchesOR_single sharesWith_def)

lemma linkedOf_char:
  assumes "email' \<noteq> None \<or> phoneNumber' \<noteq> None"
    and "seedsOf email' phoneNumber' rs \<noteq> []"
  shows "linkedOf email' phoneNumber' rs =
           filter (\<lambda>d. \<exists>s \<in> set (seedsOf email' phoneNumber' rs). sharesWith s d) rs"
proof -
  from assms(2) obtain s where s: "s \<in> set (seedsOf email' phoneNumber' rs)"
    by (cases "seedsOf email' phoneNumber' rs") auto
  with seeds_have_value [OF assms(1)]
  have "\<exists>s \<in> set (seedsOf email' phoneNumber' rs). email s \<noteq> None \<or> phoneNumber s \<noteq> None"
    by blast
  then have "\<And>d. matchesOR (whereExpansion (seedsOf email' phoneNumber' rs) email' phoneNumber') d
                = (\<exists>s \<in> set (seedsOf email' phoneNumber' rs). sharesWith s d)"
    by (rule matchesOR_expansion)
  then have "matchesOR (whereExpansion (seedsOf email' phoneNumber' rs) email' phoneNumber')
                = (\<lambda>d. \<exists>s \<in> set (seedsOf email' phoneNumber' rs). sharesWith s d)"
    by (rule ext)
  then show ?thesis
    unfolding linkedOf_def by (rule arg_cong)
qed

lemma seeds_subset_linked:
  assumes "email' \<noteq> None \<or> phoneNumber' \<noteq> None"
  shows "set (seedsOf email' phoneNumber' rs) \<subseteq> set (linkedOf email' phoneNumber' rs)"
proof (cases "seedsOf email' phoneNumber' rs = []")
  case True
  then show ?thesis by simp
next
  case False
  show ?thesis
    unfolding linkedOf_char [OF assms False]
    using seeds_have_value [OF assms] by auto
qed

lemma linkedOf_no_seeds:
  "seedsOf email' phoneNumber' rs = [] \<Longrightarrow> linkedOf email' phoneNumber' rs = []"
  by (simp add: linkedOf_def whereExpansion_def uniqueNonNull_def) (simp add: seedsOf_def)

lemma linkedOf_empty_iff:
  "email' \<noteq> None \<or> phoneNumber' \<noteq> None \<Longrightarrow>
   (linkedOf email' phoneNumber' rs = []) = (seedsOf email' phoneNumber' rs = [])"
  using seeds_subset_linked [of email' phoneNumber' rs] linkedOf_no_seeds [of email' phoneNumber' rs]
  by auto

lemma connected_in: "connected rs c d \<Longrightarrow> c \<in> set rs \<and> d \<in> set rs"
  by (induction rule: connected.induct) auto

lemma linked_subset_component:
  assumes "email' \<noteq> None \<or> phoneNumber' \<noteq> None"
  shows "set (linkedOf email' phoneNumber' rs) \<subseteq> componentOf rs (seedsOf email' phoneNumber' rs)"
proof (cases "seedsOf email' phoneNumber' rs = []")
  case True
  then show ?thesis by (simp add: linkedOf_no_seeds)
next
  case False
  show ?thesis
  proof
    fix d assume "d \<in> set (linkedOf email' phoneNumber' rs)"
    then obtain s where s: "s \<in> set (seedsOf email' phoneNumber' rs)" and sh: "sharesWith s d"
      and d: "d \<in> set rs"
      unfolding linkedOf_char [OF assms False] by auto
    from s have "s \<in> set rs" using seeds_have_value [OF assms] by blast
    then have "connected rs s s" by (rule connected.here)
    then have "connected rs s d" using d sh by (rule connected.hop)
    then show "d \<in> componentOf rs (seedsOf email' phoneNumber' rs)"
      using s by (auto simp: componentOf_def)
  qed
qed

lemma truthy_Some: "truthy v \<Longrightarrow> v \<noteq> None"
  by (cases v) (auto simp: truthy_def)

lemma findMany_eq:
  "findMany fails w db =
     ((if fails (FindMany w) then Inl StorageFailure else Inr (filter (matchesOR w) (rows db))),
      db\<lparr>calls := calls db @ [FindMany w]\<rparr>)"
  by (simp add: findMany_def Let_def)

lemma valid_request: "truthy e \<or> truthy p \<Longrightarrow>
   \<not> ((\<not> truthy e \<or> e = Some []) \<and> (\<not> truthy p \<or> p = Some []))"
  by (auto simp: truthy_def)

lemma identify_unfold:
  assumes valid: "truthy e \<or> truthy p"
  shows "identify fails now e p db =
    (if fails (FindMany (buildWhereOrForSingleLookup e p))
     then (internalServerError, db\<lparr>calls := calls db @ [FindMany (buildWhereOrForSingleLookup e p)]\<rparr>)
     else if seedsOf e p (rows db) = []
     then createPrimary fails now e p (db\<lparr>calls := calls db @ [FindMany (buildWhereOrForSingleLookup e p)]\<rparr>)
     else if fails (FindMany (whereExpansion (seedsOf e p (rows db)) e p))
     then (internalServerError,
           db\<lparr>calls := calls db @ [FindMany (buildWhereOrForSingleLookup e p),
                                   FindMany (whereExpansion (seedsOf e p (rows db)) e p)]\<rparr>)
     else merge fails now e p (linkedOf e p (rows db))
           (db\<lparr>calls := calls db @ [FindMany (buildWhereOrForSingleLookup e p),
                                   FindMany (whereExpansion (seedsOf e p (rows db)) e p)]\<rparr>))"
proof -
  have some: "e \<noteq> None \<or> p \<noteq> None" using valid truthy_Some by blast
  have ne: "seedsOf e p (rows db) \<noteq> [] \<Longrightarrow> linkedOf e p (rows db) \<noteq> []"
    using linkedOf_empty_iff [OF some] by simp
  have nb: "((\<not> truthy e \<or> e = Some []) \<and> (\<not> truthy p \<or> p = Some [])) = False"
    using valid by (auto simp: truthy_def)
  show ?thesis
    unfolding identify_def nb if_False
    using ne
    by (simp add: findMany_eq seedsOf_def [symmetric] linkedOf_def [symmetric])
qed

lemma create_eq:
  "create fails now e p prec lid db =
     (if fails (Create e p prec lid)
      then (Inl StorageFailure, db\<lparr>calls := calls db @ [Create e p prec lid]\<rparr>)
      else (Inr \<lparr>contactId = nextId db, email = e, phoneNumber = p, linkedId = lid,
                 linkPrecedence = prec, createdAt = now\<rparr>,
            db\<lparr>rows := rows db @ [\<lparr>contactId = nextId db, email = e, phoneNumber = p, linkedId = lid,
                                    linkPrecedence = prec, createdAt = now\<rparr>],
               nextId := nextId db + 1,
               calls := calls db @ [Create e p prec lid]\<rparr>))"
  by (simp add: create_def Let_def)

lemma createPrimary_eq:
  "createPrimary fails now e p db =
     (if fails (Create e p Primary None)
      then (internalServerError, db\<lparr>calls := calls db @ [Create e p Primary None]\<rparr>)
      else ((200, contactBody (nextId db) (uniqueNonNull [e]) (uniqueNonNull [p]) []),
            db\<lparr>rows := rows db @ [\<lparr>contactId = nextId db, email = e, phoneNumber = p, linkedId = None,
                                    linkPrecedence = Primary, createdAt = now\<rparr>],
               nextId := nextId db + 1,
               calls := calls db @ [Create e p Primary None]\<rparr>))"
  by (simp add: createPrimary_def create_eq)

lemma snapshot_eq:
  "snapshot fails primary db =
     (if fails (FindMany [IdEq (contactId primary), LinkedIdEq (contactId primary)])
      then internalServerError
      else (200, contactBody (contactId primary)
              (prependIfPresent
                 (uniqueNonNull (map email (filter (matchesOR [IdEq (contactId primary), LinkedIdEq (contactId primary)]) (rows db))))
                 (email primary))
              (prependIfPresent
                 (uniqueNonNull (map phoneNumber (filter (matchesOR [IdEq (contactId primary), LinkedIdEq (contactId primary)]) (rows db))))
                 (phoneNumber primary))
              (map contactId (filter (\<lambda>c. linkPrecedence c = Secondary)
                 (filter (matchesOR [IdEq (contactId primary), LinkedIdEq (contactId primary)]) (rows db))))),
      db\<lparr>calls := calls db @ [FindMany [IdEq (contactId primary), LinkedIdEq (contactId primary)]]\<rparr>)"
  by (simp add: snapshot_def findMany_eq Let_def)

lemma toDowngrade_subset: "set (toDowngrade all primary) \<subseteq> set all"
  by (auto simp: toDowngrade_def)

lemma map_downgraded_Nil: "map (downgraded fails [] pid) rs = rs"
  by (induction rs) (simp_all add: downgraded_def)

lemma merge_unfold:
  assumes sub: "set all \<subseteq> set (rows db)"
  shows "merge fails now e p all db =
    (if \<exists>c \<in> set (toDowngrade all (primaryOf all)).
          fails (Update (contactId c) Secondary (Some (contactId (primaryOf all))))
     then (internalServerError,
           db\<lparr>rows := map (downgraded fails (toDowngrade all (primaryOf all)) (contactId (primaryOf all))) (rows db),
              calls := calls db @ map (\<lambda>c. Update (contactId c) Secondary (Some (contactId (primaryOf all))))
                                     (toDowngrade all (primaryOf all))\<rparr>)
     else if introducesNewInfo e p all
     then (case create fails now e p Secondary (Some (contactId (primaryOf all)))
                 (db\<lparr>rows := map (downgraded fails (toDowngrade all (primaryOf all)) (contactId (primaryOf all))) (rows db),
                    calls := calls db @ map (\<lambda>c. Update (contactId c) Secondary (Some (contactId (primaryOf all))))
                                     (toDowngrade all (primaryOf all))\<rparr>) of
             (Inl err, db'') \<Rightarrow> (internalServerError, db'')
           | (Inr created, db'') \<Rightarrow> snapshot fails (primaryOf all) db'')
     else snapshot fails (primaryOf all)
           (db\<lparr>rows := map (downgraded fails (toDowngrade all (primaryOf all)) (contactId (primaryOf all))) (rows db),
              calls := calls db @ map (\<lambda>c. Update (contactId c) Secondary (Some (contactId (primaryOf all))))
                                     (toDowngrade all (primaryOf all))\<rparr>))"
proof -
  let ?P = "primaryOf all"
  let ?D = "toDowngrade all ?P"
  have ids: "contactId ` set ?D \<subseteq> contactId ` set (rows db)"
    using sub toDowngrade_subset [of all ?P] by blast
  have pa: "(if length ?D > 0 then promiseAllUpdate fails ?D (contactId ?P) db else (Inr (), db))
             = promiseAllUpdate fails ?D (contactId ?P) db"
    by (cases ?D) simp_all
  show ?thesis
    unfolding merge_def Let_def pa promiseAllUpdate_char [OF ids]
    by (simp add: map_downgraded_Nil)
qed

section \<open>Requests without an identifier\<close>

text \<open>
  C6. A request whose email and phone number are both absent, null or the empty string is
  answered with status 400 and the store is left as it was: no row is created or changed,
  and no call reaches the store (its log of calls is unchanged).
\<close>

theorem identify_rejects_empty_request:
  assumes "email' = None \<or> email' = Some []"
    and "phoneNumber' = None \<or> phoneNumber' = Some []"
  shows "identify fails now email' phoneNumber' db =
           ((400, JObject [(''error'', JString ''Email or phoneNumber required'')]), db)"
  using assms by (auto simp: identify_def truthy_def badRequest_def)

theorem identify_rejects_empty_request_witness:
  "identify noFailure 7 None (Some [])
     \<lparr>rows = [\<lparr>contactId = 1, email = Some [], phoneNumber = None, linkedId = None,
               linkPrecedence = Primary, createdAt = 1\<rparr>], nextId = 2, calls = []\<rparr>
   = ((400, JObject [(''error'', JString ''Email or phoneNumber required'')]),
      \<lparr>rows = [\<lparr>contactId = 1, email = Some [], phoneNumber = None, linkedId = None,
               linkPrecedence = Primary, createdAt = 1\<rparr>], nextId = 2, calls = []\<rparr>)"
  using identify_rejects_empty_request [of None "Some []" noFailure 7] by simp

section \<open>Selecting the primary\<close>

text \<open>
  C3 (as amended). Whenever the expansion returns a non-empty list, the selected primary is
  one of its rows and has the smallest \<open>createdAt\<close> among them, whatever the rows'
  \<open>linkPrecedence\<close>. When several rows share that smallest \<open>createdAt\<close>, the one the query
  returned first is selected: every row before the selected one is strictly younger.
  That is the row with the smallest identifier whenever the query returns its rows in
  ascending order of identifiers; the handler itself never compares identifiers.
\<close>

theorem primary_selection:
  assumes "allLinkedContacts \<noteq> []"
  shows "primaryOf allLinkedContacts \<in> set allLinkedContacts
    \<and> (\<forall>c \<in> set allLinkedContacts. createdAt (primaryOf allLinkedContacts) \<le> createdAt c)
    \<and> (\<exists>pre post. allLinkedContacts = pre @ primaryOf allLinkedContacts # post
          \<and> (\<forall>c \<in> set pre. createdAt (primaryOf allLinkedContacts) < createdAt c))
    \<and> (sorted_wrt (\<lambda>a b. contactId a < contactId b) allLinkedContacts \<longrightarrow>
          (\<forall>c \<in> set allLinkedContacts. createdAt c = createdAt (primaryOf allLinkedContacts)
              \<longrightarrow> contactId (primaryOf allLinkedContacts) \<le> contactId c))"
proof -
  let ?P = "primaryOf allLinkedContacts"
  from primaryOf_first [OF assms] obtain pre post where
    dec: "allLinkedContacts = pre @ ?P # post"
    and lt: "\<forall>c \<in> set pre. createdAt ?P < createdAt c"
    and le: "\<forall>c \<in> set post. createdAt ?P \<le> createdAt c"
    by blast
  have mem: "?P \<in> set allLinkedContacts" using primaryOf_in [OF assms] .
  have min: "\<forall>c \<in> set allLinkedContacts. createdAt ?P \<le> createdAt c"
  proof
    fix c assume "c \<in> set allLinkedContacts"
    then have "c \<in> set pre \<or> c = ?P \<or> c \<in> set post"
      by (subst (asm) dec) auto
    then show "createdAt ?P \<le> createdAt c" using lt le by auto
  qed
  have first: "\<exists>pre post. allLinkedContacts = pre @ ?P # post
          \<and> (\<forall>c \<in> set pre. createdAt ?P < createdAt c)"
    using dec lt by blast
  have tie: "\<forall>c \<in> set allLinkedContacts. createdAt c = createdAt ?P \<longrightarrow> contactId ?P \<le> contactId c"
    if srt: "sorted_wrt (\<lambda>a b. contactId a < contactId b) allLinkedContacts"
  proof (intro ballI impI)
    fix c assume c: "c \<in> set allLinkedContacts" and eq: "createdAt c = createdAt ?P"
    from c have "c \<in> set pre \<or> c = ?P \<or> c \<in> set post"
      by (subst (asm) dec) auto
    moreover have "c \<notin> set pre" using lt eq by auto
    moreover have "c \<in> set post \<Longrightarrow> contactId ?P < contactId c"
    proof -
      assume cp: "c \<in> set post"
      from srt have "sorted_wrt (\<lambda>a b. contactId a < contactId b) (pre @ ?P # post)"
        by (subst (asm) dec)
      then show ?thesis using cp by (auto simp: sorted_wrt_append)
    qed
    ultimately show "contactId ?P \<le> contactId c" by auto
  qed
  show ?thesis using mem min first tie by blast
qed


text \<open>
  A list in ascending order of identifiers whose rows 2 and 3 are equally old: row 2 is
  selected, though it is a secondary.
\<close>

theorem primary_selection_witness:
  "[\<lparr>contactId = 1, email = Some ''a'', phoneNumber = None, linkedId = None,
      linkPrecedence = Primary, createdAt = 8\<rparr>,
    \<lparr>contactId = 2, email = Some ''a'', phoneNumber = Some ''1'', linkedId = Some 1,
      linkPrecedence = Secondary, createdAt = 3\<rparr>,
    \<lparr>contactId = 3, email = None, phoneNumber = Some ''1'', linkedId = None,
      linkPrecedence = Primary, createdAt = 3\<rparr>] \<noteq> []
   \<and> sorted_wrt (\<lambda>a b. contactId a < contactId b)
        [\<lparr>contactId = 1, email = Some ''a'', phoneNumber = None, linkedId = None,
           linkPrecedence = Primary, createdAt = 8\<rparr>,
         \<lparr>contactId = 2, email = Some ''a'', phoneNumber = Some ''1'', linkedId = Some 1,
           linkPrecedence = Secondary, createdAt = 3\<rparr>,
         \<lparr>contactId = 3, email = None, phoneNumber = Some ''1'', linkedId = None,
           linkPrecedence = Primary, createdAt = 3\<rparr>]
   \<and> primaryOf
        [\<lparr>contactId = 1, email = Some ''a'', phoneNumber = None, linkedId = None,
           linkPrecedence = Primary, createdAt = 8\<rparr>,
         \<lparr>contactId = 2, email = Some ''a'', phoneNumber = Some ''1'', linkedId = Some 1,
           linkPrecedence = Secondary, createdAt = 3\<rparr>,
         \<lparr>contactId = 3, email = None, phoneNumber = Some ''1'', linkedId = None,
           linkPrecedence = Primary, createdAt = 3\<rparr>]
       = \<lparr>contactId = 2, email = Some ''a'', phoneNumber = Some ''1'', linkedId = Some 1,
           linkPrecedence = Secondary, createdAt = 3\<rparr>"
  using primary_selection
    [of "[\<lparr>contactId = 1, email = Some ''a'', phoneNumber = None, linkedId = None,
           linkPrecedence = Primary, createdAt = 8\<rparr>,
         \<lparr>contactId = 2, email = Some ''a'', phoneNumber = Some ''1'', linkedId = Some 1,
           linkPrecedence = Secondary, createdAt = 3\<rparr>,
         \<lparr>contactId = 3, email = None, phoneNumber = Some ''1'', linkedId = None,
           linkPrecedence = Primary, createdAt = 3\<rparr>]"]
  by (simp add: primaryOf_def older_def)

text \<open>
  The claim as stated (ties go to the smallest identifier) fails when the store returns
  the rows in another order, which an unordered \<^verbatim>\<open>findMany\<close> may do: two primaries
  created in the same millisecond, the row with identifier 2 returned first. A request
  naming the email of one and the phone number of the other merges them under 2.
\<close>

theorem primary_selection_tie_counterexample:
  "linkedOf (Some ''a'') (Some ''q'')
      [\<lparr>contactId = 2, email = Some ''b'', phoneNumber = Some ''q'', linkedId = None,
         linkPrecedence = Primary, createdAt = 5\<rparr>,
       \<lparr>contactId = 1, email = Some ''a'', phoneNumber = Some ''p'', linkedId = None,
         linkPrecedence = Primary, createdAt = 5\<rparr>]
    = [\<lparr>contactId = 2, email = Some ''b'', phoneNumber = Some ''q'', linkedId = None,
         linkPrecedence = Primary, createdAt = 5\<rparr>,
       \<lparr>contactId = 1, email = Some ''a'', phoneNumber = Some ''p'', linkedId = None,
         linkPrecedence = Primary, createdAt = 5\<rparr>]
   \<and> primaryOf
        [\<lparr>contactId = 2, email = Some ''b'', phoneNumber = Some ''q'', linkedId = None,
           linkPrecedence = Primary, createdAt = 5\<rparr>,
         \<lparr>contactId = 1, email = Some ''a'', phoneNumber = Some ''p'', linkedId = None,
           linkPrecedence = Primary, createdAt = 5\<rparr>]
       = \<lparr>contactId = 2, email = Some ''b'', phoneNumber = Some ''q'', linkedId = None,
           linkPrecedence = Primary, createdAt = 5\<rparr>
   \<and> fst (identify noFailure 9 (Some ''a'') (Some ''q'')
        \<lparr>rows = [\<lparr>contactId = 2, email = Some ''b'', phoneNumber = Some ''q'', linkedId = None,
                   linkPrecedence = Primary, createdAt = 5\<rparr>,
                 \<lparr>contactId = 1, email = Some ''a'', phoneNumber = Some ''p'', linkedId = None,
                   linkPrecedence = Primary, createdAt = 5\<rparr>],
          nextId = 3, calls = []\<rparr>)
       = (200, contactBody 2 [''b'', ''a''] [''q'', ''p''] [1])"
  by code_simp

section \<open>The expansion query\<close>

text \<open>The example store is what three requests leave of the empty store.\<close>

lemma chainStore_reached:
  "rows (snd (identify noFailure 3 (Some ''e3'') (Some ''p2'')
       (snd (identify noFailure 2 (Some ''e1'') (Some ''p2'')
          (snd (identify noFailure 1 (Some ''e1'') (Some ''p1'') emptyStore))))))
     = rows chainStore
   \<and> nextId (snd (identify noFailure 3 (Some ''e3'') (Some ''p2'')
       (snd (identify noFailure 2 (Some ''e1'') (Some ''p2'')
          (snd (identify noFailure 1 (Some ''e1'') (Some ''p1'') emptyStore))))))
     = nextId chainStore"
  by code_simp

text \<open>
  What the two reads of a valid request with seeds return: the rows of the expansion are
  the rows of the table that share an email or a phone number with some seed, in the order
  of the table. They include every seed and lie within the component of the seeds.
\<close>

lemma expansion_is_one_hop:
  assumes "truthy email' \<or> truthy phoneNumber'"
    and "findMany fails (buildWhereOrForSingleLookup email' phoneNumber') db = (Inr existingContacts, db1)"
    and "existingContacts \<noteq> []"
    and "findMany fails (whereExpansion existingContacts email' phoneNumber') db1 = (Inr allLinkedContacts, db2)"
  shows "allLinkedContacts = filter (\<lambda>d. \<exists>s \<in> set existingContacts. sharesWith s d) (rows db)
    \<and> set existingContacts \<subseteq> set allLinkedContacts
    \<and> set allLinkedContacts \<subseteq> componentOf (rows db) existingContacts"
proof -
  have some: "email' \<noteq> None \<or> phoneNumber' \<noteq> None" using assms(1) truthy_Some by blast
  have seeds: "existingContacts = seedsOf email' phoneNumber' (rows db)" and r1: "rows db1 = rows db"
    using assms(2) by (auto simp: findMany_eq seedsOf_def split: if_splits)
  have linked: "allLinkedContacts = linkedOf email' phoneNumber' (rows db)"
    using assms(4) unfolding seeds by (auto simp: findMany_eq linkedOf_def r1 split: if_splits)
  have ne: "seedsOf email' phoneNumber' (rows db) \<noteq> []" using assms(3) seeds by simp
  show ?thesis
    unfolding linked seeds
    by (intro conjI linkedOf_char [OF some ne] seeds_subset_linked [OF some]
          linked_subset_component [OF some])
qed

text \<open>
  C2. The expansion does not reach the whole component. On the example store the request
  \<^verbatim>\<open>{email: "e3"}\<close> makes one seed lookup and one expansion query, as its log of calls
  shows. The seed is row 3 and the expansion returns rows 2 and 3. Row 1, the primary the
  two are linked to, is in the component of the seed (3 shares \<^verbatim>\<open>p2\<close> with 2, and 2 shares
  \<^verbatim>\<open>e1\<close> with 1) and is not returned, because it shares nothing with the seed itself; the
  handler goes on to answer with row 2 as the primary.
\<close>

theorem expansion_misses_two_hops:
  "calls (snd (identify noFailure 4 (Some ''e3'') None chainStore))
     = [FindMany [EmailEq ''e3''], FindMany [EmailIn [''e3''], PhoneNumberIn [''p2'']],
        Update 3 Secondary (Some 2), FindMany [IdEq 2, LinkedIdEq 2]]
   \<and> fst (findMany noFailure [EmailEq ''e3''] chainStore) = Inr [contactC]
   \<and> fst (findMany noFailure [EmailIn [''e3''], PhoneNumberIn [''p2'']] chainStore)
       = Inr [contactB, contactC]
   \<and> fst (identify noFailure 4 (Some ''e3'') None chainStore)
       = (200, contactBody 2 [''e1'', ''e3''] [''p2''] [2, 3])
   \<and> seedsOf (Some ''e3'') None (rows chainStore) = [contactC]
   \<and> linkedOf (Some ''e3'') None (rows chainStore) = [contactB, contactC]
   \<and> contactA \<in> componentOf (rows chainStore) (seedsOf (Some ''e3'') None (rows chainStore))
   \<and> set (linkedOf (Some ''e3'') None (rows chainStore))
       \<noteq> componentOf (rows chainStore) (seedsOf (Some ''e3'') None (rows chainStore))"
proof -
  have c: "calls (snd (identify noFailure 4 (Some ''e3'') None chainStore))
     = [FindMany [EmailEq ''e3''], FindMany [EmailIn [''e3''], PhoneNumberIn [''p2'']],
        Update 3 Secondary (Some 2), FindMany [IdEq 2, LinkedIdEq 2]]"
    by code_simp
  have f1: "fst (findMany noFailure [EmailEq ''e3''] chainStore) = Inr [contactC]" by code_simp
  have f2: "fst (findMany noFailure [EmailIn [''e3''], PhoneNumberIn [''p2'']] chainStore)
       = Inr [contactB, contactC]"
    by code_simp
  have r: "fst (identify noFailure 4 (Some ''e3'') None chainStore)
       = (200, contactBody 2 [''e1'', ''e3''] [''p2''] [2, 3])"
    by code_simp
  have s: "seedsOf (Some ''e3'') None (rows chainStore) = [contactC]" by code_simp
  have l: "linkedOf (Some ''e3'') None (rows chainStore) = [contactB, contactC]" by code_simp
  have "connected (rows chainStore) contactC contactC"
    by (rule connected.here) (simp add: chainStore_def)
  then have "connected (rows chainStore) contactC contactB"
    by (rule connected.hop) (simp_all add: chainStore_def sharesWith_def contactB_def contactC_def)
  then have "connected (rows chainStore) contactC contactA"
    by (rule connected.hop) (simp_all add: chainStore_def sharesWith_def contactB_def contactA_def)
  then have a: "contactA \<in> componentOf (rows chainStore) (seedsOf (Some ''e3'') None (rows chainStore))"
    unfolding s by (simp add: componentOf_def)
  have n: "contactA \<notin> set (linkedOf (Some ''e3'') None (rows chainStore))"
    unfolding l by (simp add: contactA_def contactB_def contactC_def)
  from a n have d: "set (linkedOf (Some ''e3'') None (rows chainStore))
       \<noteq> componentOf (rows chainStore) (seedsOf (Some ''e3'') None (rows chainStore))"
    by blast
  show ?thesis by (intro conjI c f1 f2 r s l a d)
qed

text \<open>So some request with seeds considers fewer rows than the component of its seeds.\<close>

theorem expansion_misses_two_hops_witness:
  "\<exists>(db :: store) e. seedsOf e None (rows db) \<noteq> []
          \<and> set (linkedOf e None (rows db)) \<noteq> componentOf (rows db) (seedsOf e None (rows db))"
proof -
  note t = expansion_misses_two_hops
  from t have s: "seedsOf (Some ''e3'') None (rows chainStore) = [contactC]" by blast
  from t have d: "set (linkedOf (Some ''e3'') None (rows chainStore))
            \<noteq> componentOf (rows chainStore) (seedsOf (Some ''e3'') None (rows chainStore))"
    by blast
  have "seedsOf (Some ''e3'') None (rows chainStore) \<noteq> []" unfolding s by simp
  with d show ?thesis by blast
qed

section \<open>The invariants of the data model\<close>

text \<open>
  The example store satisfies the invariants: its three rows form one component, row 1
  is its only primary, and rows 2 and 3 are secondaries linked to 1.
\<close>

lemma chainStore_connected_to_primary:
  assumes "c \<in> set (rows chainStore)"
  shows "connected (rows chainStore) c contactA"
proof -
  have A: "contactA \<in> set (rows chainStore)" and B: "contactB \<in> set (rows chainStore)"
    by (simp_all add: chainStore_def)
  have BA: "sharesWith contactB contactA" and CB: "sharesWith contactC contactB"
    by (simp_all add: sharesWith_def contactA_def contactB_def contactC_def)
  from assms have "c = contactA \<or> c = contactB \<or> c = contactC" by (auto simp: chainStore_def)
  then show ?thesis
  proof (elim disjE)
    assume "c = contactA"
    then show ?thesis using assms by (simp add: connected.here)
  next
    assume c: "c = contactB"
    have "connected (rows chainStore) contactB contactB" using B by (rule connected.here)
    then show ?thesis unfolding c using A BA by (rule connected.hop)
  next
    assume c: "c = contactC"
    have "connected (rows chainStore) contactC contactC" using assms c by (simp add: connected.here)
    then have "connected (rows chainStore) contactC contactB" using B CB by (rule connected.hop)
    then show ?thesis unfolding c using A BA by (rule connected.hop)
  qed
qed

lemma chainStore_only_primary:
  assumes "p \<in> set (rows chainStore)" and "linkPrecedence p = Primary"
  shows "p = contactA"
  using assms by (auto simp: chainStore_def contactA_def contactB_def contactC_def)

lemma chainStore_invariants: "componentInvariants (rows chainStore)"
proof -
  have one: "onePrimaryPerComponent (rows chainStore)"
    unfolding onePrimaryPerComponent_def
  proof
    fix c assume c: "c \<in> set (rows chainStore)"
    show "\<exists>!p. connected (rows chainStore) c p \<and> linkPrecedence p = Primary"
    proof (rule ex1I [of _ contactA])
      show "connected (rows chainStore) c contactA \<and> linkPrecedence contactA = Primary"
        using chainStore_connected_to_primary [OF c] by (simp add: contactA_def)
    next
      fix p assume "connected (rows chainStore) c p \<and> linkPrecedence p = Primary"
      then show "p = contactA"
        using connected_in chainStore_only_primary by blast
    qed
  qed
  have others: "othersLinkedToPrimary (rows chainStore)"
    unfolding othersLinkedToPrimary_def
  proof (intro ballI allI impI)
    fix c p
    assume c: "c \<in> set (rows chainStore)"
      and h: "connected (rows chainStore) c p \<and> linkPrecedence p = Primary \<and> c \<noteq> p"
    then have p: "p = contactA" using connected_in chainStore_only_primary by blast
    with c h have "c = contactB \<or> c = contactC" by (auto simp: chainStore_def)
    then show "linkPrecedence c = Secondary \<and> linkedId c = Some (contactId p)"
      unfolding p by (auto simp: contactA_def contactB_def contactC_def)
  qed
  have chain: "noSecondaryChain (rows chainStore)"
    by (simp add: noSecondaryChain_def chainStore_def contactA_def contactB_def contactC_def)
  show ?thesis using one others chain by (simp add: componentInvariants_def)
qed

text \<open>
  C1. The handler does not preserve the invariants. On the example store the request
  \<^verbatim>\<open>{email: "e3"}\<close> finds the seed 3 and expands to rows 2 and 3 only; it takes the
  secondary 2, the older of the two, for the primary and links 3 to it. Afterwards row 3
  is a secondary linked to the secondary 2, and the answer names 2 as the primary and
  lists 2 among the secondaries.
\<close>

theorem invariants_broken_by_two_hop_request:
  "componentInvariants (rows chainStore)
   \<and> fst (identify noFailure 4 (Some ''e3'') None chainStore)
       = (200, contactBody 2 [''e1'', ''e3''] [''p2''] [2, 3])
   \<and> rows (snd (identify noFailure 4 (Some ''e3'') None chainStore))
       = [contactA, contactB, contactC\<lparr>linkedId := Some 2\<rparr>]
   \<and> \<not> componentInvariants (rows (snd (identify noFailure 4 (Some ''e3'') None chainStore)))"
proof -
  have resp: "fst (identify noFailure 4 (Some ''e3'') None chainStore)
       = (200, contactBody 2 [''e1'', ''e3''] [''p2''] [2, 3])"
    by code_simp
  have post: "rows (snd (identify noFailure 4 (Some ''e3'') None chainStore))
       = [contactA, contactB, contactC\<lparr>linkedId := Some 2\<rparr>]"
    by code_simp
  have "\<not> noSecondaryChain [contactA, contactB, contactC\<lparr>linkedId := Some 2\<rparr>]"
    by (simp add: noSecondaryChain_def contactA_def contactB_def contactC_def)
  then have "\<not> componentInvariants (rows (snd (identify noFailure 4 (Some ''e3'') None chainStore)))"
    unfolding post by (simp add: componentInvariants_def)
  with chainStore_invariants resp post show ?thesis by blast
qed

text \<open>So some store satisfying the invariants is taken to one that violates them.\<close>

theorem invariants_broken_by_two_hop_request_witness:
  "\<exists>db. componentInvariants (rows db)
        \<and> \<not> componentInvariants (rows (snd (identify noFailure 4 (Some ''e3'') None db)))"
  using invariants_broken_by_two_hop_request by blast

section \<open>The write phase\<close>

text \<open>
  What a valid request with seeds leaves in the table, and when it answers with the
  server error, for any choice of the calls the store rejects after the two lookups.
\<close>

text \<open>The store with two primaries is what three requests leave of the empty store.\<close>

lemma mergeStore_reached:
  "rows (snd (identify noFailure 3 (Some ''e2'') (Some ''p3'')
       (snd (identify noFailure 2 (Some ''e2'') (Some ''p2'')
          (snd (identify noFailure 1 (Some ''e1'') (Some ''p1'') emptyStore))))))
     = rows mergeStore
   \<and> nextId (snd (identify noFailure 3 (Some ''e2'') (Some ''p3'')
       (snd (identify noFailure 2 (Some ''e2'') (Some ''p2'')
          (snd (identify noFailure 1 (Some ''e1'') (Some ''p1'') emptyStore))))))
     = nextId mergeStore"
  by code_simp

lemma linkedOf_subset: "set (linkedOf e p rs) \<subseteq> set rs"
  by (auto simp: linkedOf_def)

lemma response_codes: "internalServerError \<noteq> (200, body)" "fst internalServerError = 500"
  by (simp_all add: internalServerError_def)

lemma identify_writes:
  assumes valid: "truthy e \<or> truthy p"
    and seeds: "seedsOf e p (rows db) \<noteq> []"
    and r1: "\<not> fails (FindMany (buildWhereOrForSingleLookup e p))"
    and r2: "\<not> fails (FindMany (whereExpansion (seedsOf e p (rows db)) e p))"
  shows "rows (snd (identify fails now e p db)) =
           map (downgraded fails (toDowngrade (linkedOf e p (rows db)) (primaryOf (linkedOf e p (rows db))))
                  (contactId (primaryOf (linkedOf e p (rows db))))) (rows db)
           @ (if \<not> (\<exists>c \<in> set (toDowngrade (linkedOf e p (rows db)) (primaryOf (linkedOf e p (rows db)))).
                       fails (Update (contactId c) Secondary (Some (contactId (primaryOf (linkedOf e p (rows db)))))))
                 \<and> introducesNewInfo e p (linkedOf e p (rows db))
                 \<and> \<not> fails (Create e p Secondary (Some (contactId (primaryOf (linkedOf e p (rows db))))))
              then [\<lparr>contactId = nextId db, email = e, phoneNumber = p,
                      linkedId = Some (contactId (primaryOf (linkedOf e p (rows db)))),
                      linkPrecedence = Secondary, createdAt = now\<rparr>]
              else [])"
    and "(fst (identify fails now e p db) = internalServerError) =
           ((\<exists>c \<in> set (toDowngrade (linkedOf e p (rows db)) (primaryOf (linkedOf e p (rows db)))).
                fails (Update (contactId c) Secondary (Some (contactId (primaryOf (linkedOf e p (rows db)))))))
            \<or> (introducesNewInfo e p (linkedOf e p (rows db))
                \<and> fails (Create e p Secondary (Some (contactId (primaryOf (linkedOf e p (rows db)))))))
            \<or> fails (FindMany [IdEq (contactId (primaryOf (linkedOf e p (rows db)))),
                                LinkedIdEq (contactId (primaryOf (linkedOf e p (rows db))))]))"
    and "fst (identify fails now e p db) \<noteq> internalServerError \<Longrightarrow> fst (fst (identify fails now e p db)) = 200"
proof -
  let ?all = "linkedOf e p (rows db)"
  let ?db2 = "db\<lparr>calls := calls db @ [FindMany (buildWhereOrForSingleLookup e p),
                                   FindMany (whereExpansion (seedsOf e p (rows db)) e p)]\<rparr>"
  have id: "identify fails now e p db = merge fails now e p ?all ?db2"
    using identify_unfold [OF valid, of fails now db] seeds r1 r2 by simp
  have sub: "set ?all \<subseteq> set (rows ?db2)" using linkedOf_subset by simp
  note m = merge_unfold [OF sub, of fails now e p]
  show "rows (snd (identify fails now e p db)) =
           map (downgraded fails (toDowngrade ?all (primaryOf ?all)) (contactId (primaryOf ?all))) (rows db)
           @ (if \<not> (\<exists>c \<in> set (toDowngrade ?all (primaryOf ?all)).
                       fails (Update (contactId c) Secondary (Some (contactId (primaryOf ?all)))))
                 \<and> introducesNewInfo e p ?all
                 \<and> \<not> fails (Create e p Secondary (Some (contactId (primaryOf ?all))))
              then [\<lparr>contactId = nextId db, email = e, phoneNumber = p,
                      linkedId = Some (contactId (primaryOf ?all)),
                      linkPrecedence = Secondary, createdAt = now\<rparr>]
              else [])"
    unfolding id m by (simp add: create_eq snapshot_eq)
  show "(fst (identify fails now e p db) = internalServerError) =
           ((\<exists>c \<in> set (toDowngrade ?all (primaryOf ?all)).
                fails (Update (contactId c) Secondary (Some (contactId (primaryOf ?all)))))
            \<or> (introducesNewInfo e p ?all
                \<and> fails (Create e p Secondary (Some (contactId (primaryOf ?all)))))
            \<or> fails (FindMany [IdEq (contactId (primaryOf ?all)), LinkedIdEq (contactId (primaryOf ?all))]))"
    unfolding id m by (simp add: create_eq snapshot_eq response_codes [symmetric])
  show "fst (identify fails now e p db) \<noteq> internalServerError \<Longrightarrow> fst (fst (identify fails now e p db)) = 200"
    unfolding id m by (simp add: create_eq snapshot_eq split: if_splits)
qed

text \<open>
  C4 (as amended). The downgrade updates and the insert are separate calls with no
  transaction around them. For every request that reaches the write phase (it passes
  validation, has seeds, and its seed lookup and expansion read both succeed), and
  whatever the store rejects afterwards: every downgrade update the store accepts is
  applied, whether or not another call of the request fails; the insert is made only when
  no downgrade update failed, the request brings new information and the store accepts
  the insert; and the answer is the server error exactly when a downgrade update, the
  insert or the final snapshot read was rejected (otherwise it has status 200). Nothing is
  rolled back: with a server error the caller may see none, part or all of the mutations.
\<close>

theorem write_phase_without_rollback:
  assumes "truthy email' \<or> truthy phoneNumber'"
    and "seedsOf email' phoneNumber' (rows db) \<noteq> []"
    and "\<not> fails (FindMany (buildWhereOrForSingleLookup email' phoneNumber'))"
    and "\<not> fails (FindMany (whereExpansion (seedsOf email' phoneNumber' (rows db)) email' phoneNumber'))"
  shows "rows (snd (identify fails now email' phoneNumber' db)) =
           map (downgraded fails
                  (toDowngrade (linkedOf email' phoneNumber' (rows db))
                               (primaryOf (linkedOf email' phoneNumber' (rows db))))
                  (contactId (primaryOf (linkedOf email' phoneNumber' (rows db))))) (rows db)
           @ (if \<not> (\<exists>c \<in> set (toDowngrade (linkedOf email' phoneNumber' (rows db))
                                           (primaryOf (linkedOf email' phoneNumber' (rows db)))).
                       fails (Update (contactId c) Secondary
                                (Some (contactId (primaryOf (linkedOf email' phoneNumber' (rows db)))))))
                 \<and> introducesNewInfo email' phoneNumber' (linkedOf email' phoneNumber' (rows db))
                 \<and> \<not> fails (Create email' phoneNumber' Secondary
                               (Some (contactId (primaryOf (linkedOf email' phoneNumber' (rows db))))))
              then [\<lparr>contactId = nextId db, email = email', phoneNumber = phoneNumber',
                      linkedId = Some (contactId (primaryOf (linkedOf email' phoneNumber' (rows db)))),
                      linkPrecedence = Secondary, createdAt = now\<rparr>]
              else [])
    \<and> ((fst (identify fails now email' phoneNumber' db) = internalServerError) =
           ((\<exists>c \<in> set (toDowngrade (linkedOf email' phoneNumber' (rows db))
                                    (primaryOf (linkedOf email' phoneNumber' (rows db)))).
                fails (Update (contactId c) Secondary
                         (Some (contactId (primaryOf (linkedOf email' phoneNumber' (rows db)))))))
            \<or> (introducesNewInfo email' phoneNumber' (linkedOf email' phoneNumber' (rows db))
                \<and> fails (Create email' phoneNumber' Secondary
                            (Some (contactId (primaryOf (linkedOf email' phoneNumber' (rows db)))))))
            \<or> fails (FindMany [IdEq (contactId (primaryOf (linkedOf email' phoneNumber' (rows db)))),
                                LinkedIdEq (contactId (primaryOf (linkedOf email' phoneNumber' (rows db))))])))
    \<and> (fst (identify fails now email' phoneNumber' db) = internalServerError
        \<or> fst (fst (identify fails now email' phoneNumber' db)) = 200)"
  using identify_writes [OF assms, of now] by blast

text \<open>
  Merging the two primaries of the example. While the store rejects the update of row 3,
  row 2 is downgraded, row 3 is not, and the answer is the server error. While the store
  rejects only the snapshot read, both rows are downgraded and the answer is the server
  error all the same.
\<close>

theorem write_phase_without_rollback_witness:
  "(truthy (Some ''e1'') \<or> truthy (Some ''p2''))
   \<and> seedsOf (Some ''e1'') (Some ''p2'') (rows mergeStore) \<noteq> []
   \<and> \<not> rejectUpdateOf3 (FindMany (buildWhereOrForSingleLookup (Some ''e1'') (Some ''p2'')))
   \<and> \<not> rejectUpdateOf3 (FindMany (whereExpansion (seedsOf (Some ''e1'') (Some ''p2'') (rows mergeStore))
                                      (Some ''e1'') (Some ''p2'')))
   \<and> rows (snd (identify rejectUpdateOf3 4 (Some ''e1'') (Some ''p2'') mergeStore))
       = [elder, younger\<lparr>linkPrecedence := Secondary, linkedId := Some 1\<rparr>, youngerSecondary]
   \<and> fst (identify rejectUpdateOf3 4 (Some ''e1'') (Some ''p2'') mergeStore) = internalServerError
   \<and> \<not> rejectSnapshotOf1 (FindMany (buildWhereOrForSingleLookup (Some ''e1'') (Some ''p2'')))
   \<and> \<not> rejectSnapshotOf1 (FindMany (whereExpansion (seedsOf (Some ''e1'') (Some ''p2'') (rows mergeStore))
                                        (Some ''e1'') (Some ''p2'')))
   \<and> rows (snd (identify rejectSnapshotOf1 4 (Some ''e1'') (Some ''p2'') mergeStore))
       = [elder, younger\<lparr>linkPrecedence := Secondary, linkedId := Some 1\<rparr>,
          youngerSecondary\<lparr>linkedId := Some 1\<rparr>]
   \<and> fst (identify rejectSnapshotOf1 4 (Some ''e1'') (Some ''p2'') mergeStore) = internalServerError"
proof -
  have v: "truthy (Some ''e1'') \<or> truthy (Some ''p2'')" by (simp add: truthy_def)
  have s: "seedsOf (Some ''e1'') (Some ''p2'') (rows mergeStore) \<noteq> []" by code_simp
  have r1: "\<not> rejectUpdateOf3 (FindMany (buildWhereOrForSingleLookup (Some ''e1'') (Some ''p2'')))"
    and r2: "\<not> rejectUpdateOf3 (FindMany (whereExpansion (seedsOf (Some ''e1'') (Some ''p2'') (rows mergeStore))
                                      (Some ''e1'') (Some ''p2'')))"
    by (simp_all add: rejectUpdateOf3_def)
  have q1: "\<not> rejectSnapshotOf1 (FindMany (buildWhereOrForSingleLookup (Some ''e1'') (Some ''p2'')))"
    and q2: "\<not> rejectSnapshotOf1 (FindMany (whereExpansion (seedsOf (Some ''e1'') (Some ''p2'') (rows mergeStore))
                                      (Some ''e1'') (Some ''p2'')))"
    by code_simp+
  have l: "linkedOf (Some ''e1'') (Some ''p2'') (rows mergeStore) = [elder, younger, youngerSecondary]"
    by code_simp
  have p: "primaryOf [elder, younger, youngerSecondary] = elder" by code_simp
  have d: "toDowngrade [elder, younger, youngerSecondary] elder = [younger, youngerSecondary]"
    by code_simp
  have i: "contactId elder = 1" by (simp add: elder_def)
  have m: "map (downgraded rejectUpdateOf3 [younger, youngerSecondary] 1) (rows mergeStore)
             = [elder, younger\<lparr>linkPrecedence := Secondary, linkedId := Some 1\<rparr>, youngerSecondary]"
    by (simp add: downgraded_def rejectUpdateOf3_def mergeStore_def elder_def younger_def
          youngerSecondary_def)
  have n: "map (downgraded rejectSnapshotOf1 [younger, youngerSecondary] 1) (rows mergeStore)
             = [elder, younger\<lparr>linkPrecedence := Secondary, linkedId := Some 1\<rparr>,
                youngerSecondary\<lparr>linkedId := Some 1\<rparr>]"
    by (simp add: downgraded_def rejectSnapshotOf1_def mergeStore_def elder_def younger_def
          youngerSecondary_def)
  have f: "(\<exists>c \<in> set [younger, youngerSecondary].
               rejectUpdateOf3 (Update (contactId c) Secondary (Some 1))) = True"
    by (simp add: rejectUpdateOf3_def younger_def youngerSecondary_def)
  have g: "(\<exists>c \<in> set [younger, youngerSecondary].
               rejectSnapshotOf1 (Update (contactId c) Secondary (Some 1))) = False"
    "introducesNewInfo (Some ''e1'') (Some ''p2'') [elder, younger, youngerSecondary] = False"
    "rejectSnapshotOf1 (FindMany [IdEq 1, LinkedIdEq 1]) = True"
    by code_simp+
  note w = write_phase_without_rollback [OF v s r1 r2, of 4, unfolded l p d i f]
  note x = write_phase_without_rollback [OF v s q1 q2, of 4, unfolded l p d i g]
  from w have a: "rows (snd (identify rejectUpdateOf3 4 (Some ''e1'') (Some ''p2'') mergeStore))
       = map (downgraded rejectUpdateOf3 [younger, youngerSecondary] 1) (rows mergeStore)"
    by simp
  from w have b: "fst (identify rejectUpdateOf3 4 (Some ''e1'') (Some ''p2'') mergeStore) = internalServerError"
    by simp
  from x have c: "rows (snd (identify rejectSnapshotOf1 4 (Some ''e1'') (Some ''p2'') mergeStore))
       = map (downgraded rejectSnapshotOf1 [younger, youngerSecondary] 1) (rows mergeStore)"
    by simp
  from x have e: "fst (identify rejectSnapshotOf1 4 (Some ''e1'') (Some ''p2'') mergeStore) = internalServerError"
    by simp
  show ?thesis
    using v s r1 r2 q1 q2 b e unfolding a c m n by blast
qed

text \<open>
  The claim as stated (all of the mutations or none of them) fails on that request: the
  rows afterwards are neither the rows before nor the rows the request leaves when no
  write fails. Row 3 is still linked to row 2, which is now a secondary of row 1.
\<close>

theorem write_phase_partial_failure_counterexample:
  "fst (identify rejectUpdateOf3 4 (Some ''e1'') (Some ''p2'') mergeStore) = internalServerError
   \<and> rows mergeStore = [elder, younger, youngerSecondary]
   \<and> rows (snd (identify rejectUpdateOf3 4 (Some ''e1'') (Some ''p2'') mergeStore))
       = [elder, younger\<lparr>linkPrecedence := Secondary, linkedId := Some 1\<rparr>, youngerSecondary]
   \<and> rows (snd (identify noFailure 4 (Some ''e1'') (Some ''p2'') mergeStore))
       = [elder, younger\<lparr>linkPrecedence := Secondary, linkedId := Some 1\<rparr>,
          youngerSecondary\<lparr>linkedId := Some 1\<rparr>]
   \<and> rows (snd (identify rejectUpdateOf3 4 (Some ''e1'') (Some ''p2'') mergeStore)) \<noteq> rows mergeStore
   \<and> rows (snd (identify rejectUpdateOf3 4 (Some ''e1'') (Some ''p2'') mergeStore))
       \<noteq> rows (snd (identify noFailure 4 (Some ''e1'') (Some ''p2'') mergeStore))"
  by code_simp

section \<open>New-fact detection\<close>

text \<open>The test of STEP 6 spelled out: JavaScript's truthiness makes an empty string count as no value.\<close>

lemma introducesNewInfo_iff:
  "introducesNewInfo e p all =
     (\<not> (\<exists>c \<in> set all. email c = e \<and> phoneNumber c = p)
      \<and> ((\<exists>v. e = Some v \<and> v \<noteq> [] \<and> (\<forall>c \<in> set all. email c \<noteq> Some v))
         \<or> (\<exists>v. p = Some v \<and> v \<noteq> [] \<and> (\<forall>c \<in> set all. phoneNumber c \<noteq> Some v))))"
  by (cases e; cases p)
     (auto simp: introducesNewInfo_def hasSameTuple_def alreadyHasEmail_def alreadyHasPhone_def
        truthy_def)

text \<open>
  C5 (as amended). When a valid request has seeds and no store call fails, the table
  afterwards is the table after the downgrade pass, followed by one new row exactly when
  the incoming (email, phone) pair is on no row the expansion returned and at least one
  side of the pair is a non-empty string that is on none of those rows. The new row is a
  secondary linked to the selected primary and carries the pair as given. In particular,
  when both sides are known individually but never on one row, no row is created; and a
  side that is the empty string never counts as new.
\<close>

theorem insert_iff_new_nonempty_side:
  assumes "truthy email' \<or> truthy phoneNumber'"
    and "seedsOf email' phoneNumber' (rows db) \<noteq> []"
  shows "rows (snd (identify noFailure now email' phoneNumber' db)) =
           map (downgraded noFailure
                  (toDowngrade (linkedOf email' phoneNumber' (rows db))
                               (primaryOf (linkedOf email' phoneNumber' (rows db))))
                  (contactId (primaryOf (linkedOf email' phoneNumber' (rows db))))) (rows db)
           @ (if \<not> (\<exists>c \<in> set (linkedOf email' phoneNumber' (rows db)).
                       email c = email' \<and> phoneNumber c = phoneNumber')
                 \<and> ((\<exists>v. email' = Some v \<and> v \<noteq> []
                          \<and> (\<forall>c \<in> set (linkedOf email' phoneNumber' (rows db)). email c \<noteq> Some v))
                    \<or> (\<exists>v. phoneNumber' = Some v \<and> v \<noteq> []
                          \<and> (\<forall>c \<in> set (linkedOf email' phoneNumber' (rows db)). phoneNumber c \<noteq> Some v)))
              then [\<lparr>contactId = nextId db, email = email', phoneNumber = phoneNumber',
                      linkedId = Some (contactId (primaryOf (linkedOf email' phoneNumber' (rows db)))),
                      linkPrecedence = Secondary, createdAt = now\<rparr>]
              else [])"
proof -
  have r1: "\<not> noFailure (FindMany (buildWhereOrForSingleLookup email' phoneNumber'))"
    and r2: "\<not> noFailure (FindMany (whereExpansion (seedsOf email' phoneNumber' (rows db))
                                      email' phoneNumber'))"
    by (simp_all add: noFailure_def)
  show ?thesis
    unfolding identify_writes(1) [OF assms r1 r2] introducesNewInfo_iff [symmetric]
    by (simp add: noFailure_def)
qed

text \<open>On the first example store, a new email with the known phone number \<^verbatim>\<open>p2\<close> adds row 4.\<close>

theorem insert_iff_new_nonempty_side_witness:
  "(truthy (Some ''e9'') \<or> truthy (Some ''p2''))
   \<and> seedsOf (Some ''e9'') (Some ''p2'') (rows chainStore) \<noteq> []
   \<and> rows (snd (identify noFailure 4 (Some ''e9'') (Some ''p2'') chainStore))
       = [contactA, contactB, contactC,
          \<lparr>contactId = 4, email = Some ''e9'', phoneNumber = Some ''p2'', linkedId = Some 1,
            linkPrecedence = Secondary, createdAt = 4\<rparr>]"
proof -
  have v: "truthy (Some ''e9'') \<or> truthy (Some ''p2'')" by (simp add: truthy_def)
  have s: "seedsOf (Some ''e9'') (Some ''p2'') (rows chainStore) \<noteq> []" by code_simp
  have l: "linkedOf (Some ''e9'') (Some ''p2'') (rows chainStore) = [contactA, contactB, contactC]"
    by code_simp
  have p: "primaryOf [contactA, contactB, contactC] = contactA" by code_simp
  have d: "toDowngrade [contactA, contactB, contactC] contactA = []" by code_simp
  note w = insert_iff_new_nonempty_side [OF v s, of 4, unfolded l p d]
  show ?thesis
    using v s unfolding w
    by (simp add: downgraded_def chainStore_def contactA_def contactB_def contactC_def)
qed

text \<open>
  The claim as stated fails for an empty string: the request
  \<^verbatim>\<open>{email: "", phoneNumber: "123"}\<close> is accepted, its pair is on no row and its email is
  on no row, yet no row is created.
\<close>

theorem no_insert_for_new_empty_side_counterexample:
  "seedsOf (Some []) (Some ''123'') (rows knownPhoneStore) \<noteq> []
   \<and> linkedOf (Some []) (Some ''123'') (rows knownPhoneStore) = rows knownPhoneStore
   \<and> \<not> (\<exists>c \<in> set (rows knownPhoneStore). email c = Some [] \<and> phoneNumber c = Some ''123'')
   \<and> \<not> (\<exists>c \<in> set (rows knownPhoneStore). email c = Some [])
   \<and> fst (fst (identify noFailure 2 (Some []) (Some ''123'') knownPhoneStore)) = 200
   \<and> rows (snd (identify noFailure 2 (Some []) (Some ''123'') knownPhoneStore)) = rows knownPhoneStore"
  by code_simp

section \<open>Successful answers\<close>

text \<open>
  What a request that is answered with status 200 answers, where the rows of the table
  after a request come from, and the first call a valid request makes.
\<close>

lemma ok_is_valid:
  assumes "identify fails now e p db = ((200, body), db')"
  shows "truthy e \<or> truthy p"
proof (rule ccontr)
  assume "\<not> (truthy e \<or> truthy p)"
  then have "identify fails now e p db = (badRequest, db)" by (simp add: identify_def)
  with assms show False by (simp add: badRequest_def)
qed

lemma identify_ok_body:
  assumes ok: "identify fails now e p db = ((200, body), db')"
  shows "(linkedOf e p (rows db) = []
            \<and> body = contactBody (nextId db) (uniqueNonNull [e]) (uniqueNonNull [p]) [])
       \<or> (linkedOf e p (rows db) \<noteq> []
            \<and> (\<exists>fin :: contact list. body = contactBody (contactId (primaryOf (linkedOf e p (rows db))))
                   (prependIfPresent (uniqueNonNull (map email fin)) (email (primaryOf (linkedOf e p (rows db)))))
                   (prependIfPresent (uniqueNonNull (map phoneNumber fin)) (phoneNumber (primaryOf (linkedOf e p (rows db)))))
                   (map contactId (filter (\<lambda>c. linkPrecedence c = Secondary) fin))))"
proof -
  have valid: "truthy e \<or> truthy p" using ok by (rule ok_is_valid)
  have some: "e \<noteq> None \<or> p \<noteq> None" using valid truthy_Some by blast
  let ?all = "linkedOf e p (rows db)"
  let ?db1 = "db\<lparr>calls := calls db @ [FindMany (buildWhereOrForSingleLookup e p)]\<rparr>"
  let ?db2 = "db\<lparr>calls := calls db @ [FindMany (buildWhereOrForSingleLookup e p),
                                   FindMany (whereExpansion (seedsOf e p (rows db)) e p)]\<rparr>"
  note u = identify_unfold [OF valid, of fails now db]
  show ?thesis
  proof (cases "seedsOf e p (rows db) = []")
    case True
    then have e: "?all = []" by (rule linkedOf_no_seeds)
    from ok u True have "createPrimary fails now e p ?db1 = ((200, body), db')"
      by (auto simp: internalServerError_def split: if_splits)
    then have "body = contactBody (nextId db) (uniqueNonNull [e]) (uniqueNonNull [p]) []"
      by (auto simp: createPrimary_eq internalServerError_def split: if_splits)
    with e show ?thesis by simp
  next
    case False
    then have ne: "?all \<noteq> []" using linkedOf_empty_iff [OF some] by simp
    from ok u False have m: "merge fails now e p ?all ?db2 = ((200, body), db')"
      by (auto simp: internalServerError_def split: if_splits)
    have sub: "set ?all \<subseteq> set (rows ?db2)" using linkedOf_subset by simp
    from m [unfolded merge_unfold [OF sub]]
    obtain dbs where snap: "snapshot fails (primaryOf ?all) dbs = ((200, body), db')"
      by (auto simp: internalServerError_def create_eq split: if_splits)
    let ?fin = "filter (matchesOR [IdEq (contactId (primaryOf ?all)), LinkedIdEq (contactId (primaryOf ?all))])
                  (rows dbs)"
    from snap have "body = contactBody (contactId (primaryOf ?all))
                   (prependIfPresent (uniqueNonNull (map email ?fin)) (email (primaryOf ?all)))
                   (prependIfPresent (uniqueNonNull (map phoneNumber ?fin)) (phoneNumber (primaryOf ?all)))
                   (map contactId (filter (\<lambda>c. linkPrecedence c = Secondary) ?fin))"
      unfolding snapshot_eq by (simp add: internalServerError_def del: filter_filter split: if_splits)
    then have "\<exists>fin :: contact list. body = contactBody (contactId (primaryOf ?all))
                   (prependIfPresent (uniqueNonNull (map email fin)) (email (primaryOf ?all)))
                   (prependIfPresent (uniqueNonNull (map phoneNumber fin)) (phoneNumber (primaryOf ?all)))
                   (map contactId (filter (\<lambda>c. linkPrecedence c = Secondary) fin))"
      by blast
    with ne show ?thesis by simp
  qed
qed

lemma identify_rows_origin:
  assumes "r \<in> set (rows (snd (identify fails now e p db)))"
  shows "contactId r \<in> contactId ` set (rows db) \<or> (email r = e \<and> phoneNumber r = p)"
proof (cases "truthy e \<or> truthy p")
  case False
  then have "identify fails now e p db = (badRequest, db)" by (simp add: identify_def)
  with assms show ?thesis by auto
next
  case True
  let ?all = "linkedOf e p (rows db)"
  let ?db2 = "db\<lparr>calls := calls db @ [FindMany (buildWhereOrForSingleLookup e p),
                                   FindMany (whereExpansion (seedsOf e p (rows db)) e p)]\<rparr>"
  have sub: "set ?all \<subseteq> set (rows ?db2)" using linkedOf_subset by simp
  show ?thesis
    using assms
    unfolding identify_unfold [OF True] merge_unfold [OF sub]
    by (auto simp: createPrimary_eq create_eq snapshot_eq split: if_splits)
qed

lemma identify_first_call:
  assumes "truthy e \<or> truthy p"
  shows "\<exists>rest. calls (snd (identify fails now e p db))
           = calls db @ FindMany (buildWhereOrForSingleLookup e p) # rest"
proof -
  let ?all = "linkedOf e p (rows db)"
  let ?db2 = "db\<lparr>calls := calls db @ [FindMany (buildWhereOrForSingleLookup e p),
                                   FindMany (whereExpansion (seedsOf e p (rows db)) e p)]\<rparr>"
  have sub: "set ?all \<subseteq> set (rows ?db2)" using linkedOf_subset by simp
  show ?thesis
    unfolding identify_unfold [OF assms] merge_unfold [OF sub]
    by (simp add: createPrimary_eq create_eq snapshot_eq)
qed


lemma primary_not_downgraded:
  "downgraded fails (toDowngrade all primary) (contactId primary) primary = primary"
  by (simp add: downgraded_def toDowngrade_def)

lemma identify_ok_primary_stored:
  assumes ok: "identify fails now e p db = ((200, body), db')"
  shows "answeredPrimary now e p db \<in> set (rows db')"
proof -
  have valid: "truthy e \<or> truthy p" using ok by (rule ok_is_valid)
  have some: "e \<noteq> None \<or> p \<noteq> None" using valid truthy_Some by blast
  let ?all = "linkedOf e p (rows db)"
  let ?P = "primaryOf ?all"
  let ?db1 = "db\<lparr>calls := calls db @ [FindMany (buildWhereOrForSingleLookup e p)]\<rparr>"
  let ?db2 = "db\<lparr>calls := calls db @ [FindMany (buildWhereOrForSingleLookup e p),
                                   FindMany (whereExpansion (seedsOf e p (rows db)) e p)]\<rparr>"
  note u = identify_unfold [OF valid, of fails now db]
  show ?thesis
  proof (cases "seedsOf e p (rows db) = []")
    case True
    then have e: "?all = []" by (rule linkedOf_no_seeds)
    from ok u True have "createPrimary fails now e p ?db1 = ((200, body), db')"
      by (auto simp: internalServerError_def split: if_splits)
    then show ?thesis
      by (auto simp: createPrimary_eq internalServerError_def answeredPrimary_def e split: if_splits)
  next
    case False
    then have ne: "?all \<noteq> []" using linkedOf_empty_iff [OF some] by simp
    from ok u False have m: "merge fails now e p ?all ?db2 = ((200, body), db')"
      by (auto simp: internalServerError_def split: if_splits)
    have sub: "set ?all \<subseteq> set (rows ?db2)" using linkedOf_subset by simp
    have "?P \<in> set (rows db)" using primaryOf_in [OF ne] linkedOf_subset by blast
    then have "downgraded fails (toDowngrade ?all ?P) (contactId ?P) ?P
                 \<in> set (map (downgraded fails (toDowngrade ?all ?P) (contactId ?P)) (rows db))"
      by simp
    then have P: "?P \<in> set (map (downgraded fails (toDowngrade ?all ?P) (contactId ?P)) (rows db))"
      by (simp only: primary_not_downgraded)
    from m [unfolded merge_unfold [OF sub]] P have "?P \<in> set (rows db')"
      by (auto simp: internalServerError_def create_eq snapshot_eq split: if_splits)
    then show ?thesis using ne by (simp add: answeredPrimary_def)
  qed
qed

text \<open>
  C8 (as amended). Every answer with status 200 is the object
  \<^verbatim>\<open>{ contact: { primaryContatctId: int, emails: string[], phoneNumbers: string[],
  secondaryContactIds: int[] } }\<close>: the view is nested under the key \<^verbatim>\<open>contact\<close> and the
  key of the identifier is spelled \<^verbatim>\<open>primaryContatctId\<close>, as the repository's tests read it.
  Its value is the identifier of the selected primary, or of the primary the request
  created, and that row is in the table after the request.
\<close>

theorem answer_shape:
  assumes "identify fails now email' phoneNumber' db = ((200, body), db')"
  shows "(\<exists>es ps ss.
            body = JObject [(''contact'',
                     JObject [(''primaryContatctId'',
                                 JNumber (contactId (answeredPrimary now email' phoneNumber' db))),
                              (''emails'', JArray (map JString es)),
                              (''phoneNumbers'', JArray (map JString ps)),
                              (''secondaryContactIds'', JArray (map JNumber ss))])])
    \<and> answeredPrimary now email' phoneNumber' db \<in> set (rows db')"
proof -
  from identify_ok_body [OF assms]
  have "\<exists>es ps ss. body = contactBody (contactId (answeredPrimary now email' phoneNumber' db)) es ps ss"
    by (auto simp: answeredPrimary_def)
  then show ?thesis
    using identify_ok_primary_stored [OF assms] by (simp add: contactBody_def)
qed

text \<open>The first request on the empty store creates the primary 1 and answers with it.\<close>

theorem answer_shape_witness:
  "identify noFailure 1 (Some ''a'') None emptyStore
     = ((200, JObject [(''contact'',
                 JObject [(''primaryContatctId'', JNumber 1),
                          (''emails'', JArray [JString ''a'']),
                          (''phoneNumbers'', JArray []),
                          (''secondaryContactIds'', JArray [])])]),
        \<lparr>rows = [\<lparr>contactId = 1, email = Some ''a'', phoneNumber = None, linkedId = None,
                   linkPrecedence = Primary, createdAt = 1\<rparr>],
          nextId = 2,
          calls = [FindMany [EmailEq ''a''], Create (Some ''a'') None Primary None]\<rparr>)
   \<and> answeredPrimary 1 (Some ''a'') None emptyStore
       \<in> set [\<lparr>contactId = 1, email = Some ''a'', phoneNumber = None, linkedId = None,
                 linkPrecedence = Primary, createdAt = 1\<rparr>]"
proof -
  have r: "identify noFailure 1 (Some ''a'') None emptyStore
     = ((200, JObject [(''contact'',
                 JObject [(''primaryContatctId'', JNumber 1),
                          (''emails'', JArray [JString ''a'']),
                          (''phoneNumbers'', JArray []),
                          (''secondaryContactIds'', JArray [])])]),
        \<lparr>rows = [\<lparr>contactId = 1, email = Some ''a'', phoneNumber = None, linkedId = None,
                   linkPrecedence = Primary, createdAt = 1\<rparr>],
          nextId = 2,
          calls = [FindMany [EmailEq ''a''], Create (Some ''a'') None Primary None]\<rparr>)"
    by code_simp
  show ?thesis using answer_shape [OF r] r by simp
qed

text \<open>
  The claim as stated fails on that request: the answer is not an object with the four
  keys \<^verbatim>\<open>primaryContactId\<close>, \<^verbatim>\<open>emails\<close>, \<^verbatim>\<open>phoneNumbers\<close> and \<^verbatim>\<open>secondaryContactIds\<close>.
\<close>

theorem answer_shape_counterexample:
  "fst (identify noFailure 1 (Some ''a'') None emptyStore)
     = (200, JObject [(''contact'',
                 JObject [(''primaryContatctId'', JNumber 1),
                          (''emails'', JArray [JString ''a'']),
                          (''phoneNumbers'', JArray []),
                          (''secondaryContactIds'', JArray [])])])
   \<and> \<not> specifiedShape (snd (fst (identify noFailure 1 (Some ''a'') None emptyStore)))"
proof -
  have r: "fst (identify noFailure 1 (Some ''a'') None emptyStore)
     = (200, JObject [(''contact'',
                 JObject [(''primaryContatctId'', JNumber 1),
                          (''emails'', JArray [JString ''a'']),
                          (''phoneNumbers'', JArray []),
                          (''secondaryContactIds'', JArray [])])])"
    by code_simp
  show ?thesis unfolding r by (simp add: specifiedShape_def)
qed

section \<open>The lists of an answer\<close>

lemma prependIfPresent_first:
  "v \<noteq> [] \<Longrightarrow> prependIfPresent arr (Some v) \<noteq> [] \<and> hd (prependIfPresent arr (Some v)) = v"
  by (simp add: prependIfPresent_def)

lemma prependIfPresent_falsy: "\<not> truthy val \<Longrightarrow> prependIfPresent arr val = arr"
  by (cases val) (auto simp: prependIfPresent_def truthy_def)

text \<open>The lists of an answer that merges: they are built from the snapshot of the table afterwards.\<close>

lemma identify_ok_lists:
  assumes ok: "identify fails now e p db = ((200, body), db')"
    and ne: "linkedOf e p (rows db) \<noteq> []"
  shows "body = contactBody (contactId (primaryOf (linkedOf e p (rows db))))
           (prependIfPresent
              (uniqueNonNull (map email
                 (finalContactsOf (contactId (primaryOf (linkedOf e p (rows db)))) (rows db'))))
              (email (primaryOf (linkedOf e p (rows db)))))
           (prependIfPresent
              (uniqueNonNull (map phoneNumber
                 (finalContactsOf (contactId (primaryOf (linkedOf e p (rows db)))) (rows db'))))
              (phoneNumber (primaryOf (linkedOf e p (rows db)))))
           (map contactId (filter (\<lambda>c. linkPrecedence c = Secondary)
              (finalContactsOf (contactId (primaryOf (linkedOf e p (rows db)))) (rows db'))))"
proof -
  have valid: "truthy e \<or> truthy p" using ok by (rule ok_is_valid)
  let ?all = "linkedOf e p (rows db)"
  let ?db2 = "db\<lparr>calls := calls db @ [FindMany (buildWhereOrForSingleLookup e p),
                                   FindMany (whereExpansion (seedsOf e p (rows db)) e p)]\<rparr>"
  have seeds: "seedsOf e p (rows db) \<noteq> []" using ne linkedOf_no_seeds by blast
  from ok identify_unfold [OF valid, of fails now db] seeds
  have m: "merge fails now e p ?all ?db2 = ((200, body), db')"
    by (auto simp: internalServerError_def split: if_splits)
  have sub: "set ?all \<subseteq> set (rows ?db2)" using linkedOf_subset by simp
  from m [unfolded merge_unfold [OF sub]]
  obtain dbs where snap: "snapshot fails (primaryOf ?all) dbs = ((200, body), db')"
    by (auto simp: internalServerError_def create_eq split: if_splits)
  from snap have r: "rows db' = rows dbs"
    unfolding snapshot_eq by (auto simp: internalServerError_def split: if_splits)
  from snap show ?thesis
    unfolding snapshot_eq r finalContactsOf_def
    by (simp add: internalServerError_def del: filter_filter split: if_splits)
qed

text \<open>
  C7 (as amended). In every answer with status 200 the list of emails and the list of
  phone numbers have no duplicates, and whenever the answered primary's own email
  (respectively phone number) is a non-empty string, it is the first element of its list.
  When the primary was selected among existing rows and its email (respectively phone
  number) is the empty string or null, nothing is moved to the front: the list is the
  distinct non-null emails (phone numbers) of the snapshot rows, the primary's row and the
  rows linked to it, in the order the store returns them.
\<close>

theorem answer_lists:
  assumes "identify fails now email' phoneNumber' db = ((200, body), db')"
  shows "\<exists>es ps ss.
           body = contactBody (contactId (answeredPrimary now email' phoneNumber' db)) es ps ss
           \<and> distinct es \<and> distinct ps
           \<and> (\<forall>v. email (answeredPrimary now email' phoneNumber' db) = Some v \<and> v \<noteq> []
                  \<longrightarrow> es \<noteq> [] \<and> hd es = v)
           \<and> (\<forall>v. phoneNumber (answeredPrimary now email' phoneNumber' db) = Some v \<and> v \<noteq> []
                  \<longrightarrow> ps \<noteq> [] \<and> hd ps = v)
           \<and> (linkedOf email' phoneNumber' (rows db) \<noteq> []
                \<and> \<not> truthy (email (answeredPrimary now email' phoneNumber' db))
                  \<longrightarrow> es = uniqueNonNull (map email
                             (finalContactsOf (contactId (answeredPrimary now email' phoneNumber' db))
                                (rows db'))))
           \<and> (linkedOf email' phoneNumber' (rows db) \<noteq> []
                \<and> \<not> truthy (phoneNumber (answeredPrimary now email' phoneNumber' db))
                  \<longrightarrow> ps = uniqueNonNull (map phoneNumber
                             (finalContactsOf (contactId (answeredPrimary now email' phoneNumber' db))
                                (rows db'))))"
proof (cases "linkedOf email' phoneNumber' (rows db) = []")
  case True
  let ?P = "answeredPrimary now email' phoneNumber' db"
  from identify_ok_body [OF assms] True
  have b: "body = contactBody (nextId db) (uniqueNonNull [email']) (uniqueNonNull [phoneNumber']) []"
    by blast
  have P: "contactId ?P = nextId db" "email ?P = email'" "phoneNumber ?P = phoneNumber'"
    using True by (simp_all add: answeredPrimary_def)
  have "body = contactBody (contactId ?P) (uniqueNonNull [email']) (uniqueNonNull [phoneNumber']) []"
    using b P by simp
  moreover have "distinct (uniqueNonNull [email'])" "distinct (uniqueNonNull [phoneNumber'])"
    by (rule distinct_uniqueNonNull)+
  moreover have "\<forall>v. email ?P = Some v \<and> v \<noteq> [] \<longrightarrow>
                   uniqueNonNull [email'] \<noteq> [] \<and> hd (uniqueNonNull [email']) = v"
    using P by (auto simp: uniqueNonNull_def)
  moreover have "\<forall>v. phoneNumber ?P = Some v \<and> v \<noteq> [] \<longrightarrow>
                   uniqueNonNull [phoneNumber'] \<noteq> [] \<and> hd (uniqueNonNull [phoneNumber']) = v"
    using P by (auto simp: uniqueNonNull_def)
  ultimately show ?thesis using True by blast
next
  case False
  let ?P = "answeredPrimary now email' phoneNumber' db"
  have P: "primaryOf (linkedOf email' phoneNumber' (rows db)) = ?P"
    using False by (simp add: answeredPrimary_def)
  let ?fin = "finalContactsOf (contactId ?P) (rows db')"
  let ?es = "prependIfPresent (uniqueNonNull (map email ?fin)) (email ?P)"
  let ?ps = "prependIfPresent (uniqueNonNull (map phoneNumber ?fin)) (phoneNumber ?P)"
  have "body = contactBody (contactId ?P) ?es ?ps
                 (map contactId (filter (\<lambda>c. linkPrecedence c = Secondary) ?fin))"
    using identify_ok_lists [OF assms False] unfolding P .
  moreover have "distinct ?es" "distinct ?ps"
    by (simp_all add: distinct_prependIfPresent distinct_uniqueNonNull)
  moreover have "\<forall>v. email ?P = Some v \<and> v \<noteq> [] \<longrightarrow> ?es \<noteq> [] \<and> hd ?es = v"
    using prependIfPresent_first by metis
  moreover have "\<forall>v. phoneNumber ?P = Some v \<and> v \<noteq> [] \<longrightarrow> ?ps \<noteq> [] \<and> hd ?ps = v"
    using prependIfPresent_first by metis
  moreover have "\<not> truthy (email ?P) \<longrightarrow> ?es = uniqueNonNull (map email ?fin)"
    by (simp add: prependIfPresent_falsy)
  moreover have "\<not> truthy (phoneNumber ?P) \<longrightarrow> ?ps = uniqueNonNull (map phoneNumber ?fin)"
    by (simp add: prependIfPresent_falsy)
  ultimately show ?thesis by blast
qed

lemma contactBody_inject:
  "(contactBody a es ps ss = contactBody b es' ps' ss') = (a = b \<and> es = es' \<and> ps = ps' \<and> ss = ss')"
proof -
  have s: "inj JString" and n: "inj JNumber" by (simp_all add: inj_def)
  show ?thesis
    by (auto simp: contactBody_def inj_map_eq_map [OF s] inj_map_eq_map [OF n])
qed

text \<open>
  Merging the two primaries of the example: the elder's email and phone number come
  first. On the store that returns a secondary before a primary whose email is the empty
  string, the list of emails is the snapshot's, in the snapshot's order.
\<close>

theorem answer_lists_witness:
  "identify noFailure 4 (Some ''e1'') (Some ''p2'') mergeStore
     = ((200, contactBody 1 [''e1'', ''e2''] [''p1'', ''p2'', ''p3''] [2, 3]),
        \<lparr>rows = [elder, younger\<lparr>linkPrecedence := Secondary, linkedId := Some 1\<rparr>,
                 youngerSecondary\<lparr>linkedId := Some 1\<rparr>],
          nextId = 4,
          calls = [FindMany [EmailEq ''e1'', PhoneNumberEq ''p2''],
                   FindMany [EmailIn [''e1'', ''e2''], PhoneNumberIn [''p1'', ''p2'']],
                   Update 2 Secondary (Some 1), Update 3 Secondary (Some 1),
                   FindMany [IdEq 1, LinkedIdEq 1]]\<rparr>)
   \<and> answeredPrimary 4 (Some ''e1'') (Some ''p2'') mergeStore = elder
   \<and> (\<exists>es ps ss. contactBody 1 [''e1'', ''e2''] [''p1'', ''p2'', ''p3''] [2, 3]
                    = contactBody (contactId elder) es ps ss
          \<and> distinct es \<and> distinct ps \<and> hd es = ''e1'' \<and> hd ps = ''p1'')
   \<and> identify noFailure 4 None (Some ''1'') reorderedStore
       = ((200, contactBody 1 [''x'', []] [''1''] [2]),
          reorderedStore\<lparr>calls := [FindMany [PhoneNumberEq ''1''],
                                    FindMany [EmailIn [''x'', []], PhoneNumberIn [''1'']],
                                    FindMany [IdEq 1, LinkedIdEq 1]]\<rparr>)
   \<and> linkedOf None (Some ''1'') (rows reorderedStore) \<noteq> []
   \<and> \<not> truthy (email (answeredPrimary 4 None (Some ''1'') reorderedStore))
   \<and> [''x'', []] = uniqueNonNull (map email (finalContactsOf 1 (rows reorderedStore)))"
proof -
  have r: "identify noFailure 4 (Some ''e1'') (Some ''p2'') mergeStore
     = ((200, contactBody 1 [''e1'', ''e2''] [''p1'', ''p2'', ''p3''] [2, 3]),
        \<lparr>rows = [elder, younger\<lparr>linkPrecedence := Secondary, linkedId := Some 1\<rparr>,
                 youngerSecondary\<lparr>linkedId := Some 1\<rparr>],
          nextId = 4,
          calls = [FindMany [EmailEq ''e1'', PhoneNumberEq ''p2''],
                   FindMany [EmailIn [''e1'', ''e2''], PhoneNumberIn [''p1'', ''p2'']],
                   Update 2 Secondary (Some 1), Update 3 Secondary (Some 1),
                   FindMany [IdEq 1, LinkedIdEq 1]]\<rparr>)"
    by code_simp
  have a: "answeredPrimary 4 (Some ''e1'') (Some ''p2'') mergeStore = elder" by code_simp
  have e: "email elder = Some ''e1''" "phoneNumber elder = Some ''p1''" by (simp_all add: elder_def)
  from answer_lists [OF r, unfolded a] e
  have first: "\<exists>es ps ss. contactBody 1 [''e1'', ''e2''] [''p1'', ''p2'', ''p3''] [2, 3]
                    = contactBody (contactId elder) es ps ss
          \<and> distinct es \<and> distinct ps \<and> hd es = ''e1'' \<and> hd ps = ''p1''"
    by fastforce
  have r2: "identify noFailure 4 None (Some ''1'') reorderedStore
       = ((200, contactBody 1 [''x'', []] [''1''] [2]),
          reorderedStore\<lparr>calls := [FindMany [PhoneNumberEq ''1''],
                                    FindMany [EmailIn [''x'', []], PhoneNumberIn [''1'']],
                                    FindMany [IdEq 1, LinkedIdEq 1]]\<rparr>)"
    by code_simp
  have h1: "linkedOf None (Some ''1'') (rows reorderedStore) \<noteq> []" by code_simp
  have h2: "\<not> truthy (email (answeredPrimary 4 None (Some ''1'') reorderedStore))" by code_simp
  from answer_lists [OF r2] h1 h2
  obtain es ps ss where
    b: "contactBody 1 [''x'', []] [''1''] [2]
          = contactBody (contactId (answeredPrimary 4 None (Some ''1'') reorderedStore)) es ps ss"
    and i: "es = uniqueNonNull (map email
               (finalContactsOf (contactId (answeredPrimary 4 None (Some ''1'') reorderedStore))
                  (rows (reorderedStore\<lparr>calls := [FindMany [PhoneNumberEq ''1''],
                                    FindMany [EmailIn [''x'', []], PhoneNumberIn [''1'']],
                                    FindMany [IdEq 1, LinkedIdEq 1]]\<rparr>))))"
    by blast
  from b have "contactId (answeredPrimary 4 None (Some ''1'') reorderedStore) = 1" "es = [''x'', []]"
    by (simp_all add: contactBody_inject)
  with i have second: "[''x'', []] = uniqueNonNull (map email (finalContactsOf 1 (rows reorderedStore)))"
    by simp
  show ?thesis by (intro conjI r a first r2 h1 h2 second)
qed

text \<open>
  The claim as stated fails when the primary's email is the empty string and the store
  returns a secondary before the primary: the primary's email is present (it is the
  second element of the list) but not first.
\<close>

theorem empty_primary_email_not_first_counterexample:
  "fst (identify noFailure 4 None (Some ''1'') reorderedStore)
     = (200, contactBody 1 [''x'', []] [''1''] [2])
   \<and> email (answeredPrimary 4 None (Some ''1'') reorderedStore) = Some []
   \<and> hd [''x'', []] \<noteq> []"
  by code_simp

section \<open>The empty string as a value\<close>

text \<open>A request that passes validation is answered with status 200 or 500.\<close>

lemma identify_valid_status:
  assumes "truthy e \<or> truthy p"
  shows "fst (fst (identify fails now e p db)) = 200 \<or> fst (fst (identify fails now e p db)) = 500"
proof -
  let ?all = "linkedOf e p (rows db)"
  let ?db2 = "db\<lparr>calls := calls db @ [FindMany (buildWhereOrForSingleLookup e p),
                                   FindMany (whereExpansion (seedsOf e p (rows db)) e p)]\<rparr>"
  have sub: "set ?all \<subseteq> set (rows ?db2)" using linkedOf_subset by simp
  show ?thesis
    unfolding identify_unfold [OF assms] merge_unfold [OF sub]
    by (simp add: createPrimary_eq create_eq snapshot_eq internalServerError_def)
qed

text \<open>What a valid request does when no store call fails, in terms of its seeds.\<close>

lemma identify_noFailure_no_seeds:
  assumes valid: "truthy e \<or> truthy p"
    and none: "seedsOf e p (rows db) = []"
  shows "identify noFailure now e p db =
           ((200, contactBody (nextId db) (uniqueNonNull [e]) (uniqueNonNull [p]) []),
            db\<lparr>rows := rows db @ [\<lparr>contactId = nextId db, email = e, phoneNumber = p, linkedId = None,
                                    linkPrecedence = Primary, createdAt = now\<rparr>],
               nextId := nextId db + 1,
               calls := calls db @ [FindMany (buildWhereOrForSingleLookup e p),
                                     Create e p Primary None]\<rparr>)"
  unfolding identify_unfold [OF valid] using none
  by (simp add: createPrimary_eq noFailure_def)

lemma identify_noFailure_seeds:
  assumes valid: "truthy e \<or> truthy p"
    and seeds: "seedsOf e p (rows db) \<noteq> []"
  shows "linkedOf e p (rows db) = filter (\<lambda>d. \<exists>s \<in> set (seedsOf e p (rows db)). sharesWith s d) (rows db)
    \<and> rows (snd (identify noFailure now e p db)) =
         map (downgraded noFailure (toDowngrade (linkedOf e p (rows db)) (primaryOf (linkedOf e p (rows db))))
                (contactId (primaryOf (linkedOf e p (rows db))))) (rows db)
         @ (if introducesNewInfo e p (linkedOf e p (rows db))
            then [\<lparr>contactId = nextId db, email = e, phoneNumber = p,
                    linkedId = Some (contactId (primaryOf (linkedOf e p (rows db)))),
                    linkPrecedence = Secondary, createdAt = now\<rparr>]
            else [])
    \<and> (\<exists>es ps ss. fst (identify noFailure now e p db)
                      = (200, contactBody (contactId (primaryOf (linkedOf e p (rows db)))) es ps ss))"
proof -
  have some: "e \<noteq> None \<or> p \<noteq> None" using valid truthy_Some by blast
  have r1: "\<not> noFailure (FindMany (buildWhereOrForSingleLookup e p))"
    and r2: "\<not> noFailure (FindMany (whereExpansion (seedsOf e p (rows db)) e p))"
    by (simp_all add: noFailure_def)
  note w = identify_writes [OF valid seeds r1 r2, of now]
  have ne: "linkedOf e p (rows db) \<noteq> []" using seeds linkedOf_empty_iff [OF some] by simp
  have a: "linkedOf e p (rows db) = filter (\<lambda>d. \<exists>s \<in> set (seedsOf e p (rows db)). sharesWith s d) (rows db)"
    by (rule linkedOf_char [OF some seeds])
  have b: "rows (snd (identify noFailure now e p db)) =
         map (downgraded noFailure (toDowngrade (linkedOf e p (rows db)) (primaryOf (linkedOf e p (rows db))))
                (contactId (primaryOf (linkedOf e p (rows db))))) (rows db)
         @ (if introducesNewInfo e p (linkedOf e p (rows db))
            then [\<lparr>contactId = nextId db, email = e, phoneNumber = p,
                    linkedId = Some (contactId (primaryOf (linkedOf e p (rows db)))),
                    linkPrecedence = Secondary, createdAt = now\<rparr>]
            else [])"
    unfolding w(1) by (simp add: noFailure_def)
  have "fst (identify noFailure now e p db) \<noteq> internalServerError"
    unfolding w(2) by (simp add: noFailure_def)
  then have "fst (fst (identify noFailure now e p db)) = 200" by (rule w(3))
  then have "identify noFailure now e p db
               = ((200, snd (fst (identify noFailure now e p db))), snd (identify noFailure now e p db))"
    by (metis prod.collapse)
  from identify_ok_body [OF this] ne
  have "\<exists>es ps ss. snd (fst (identify noFailure now e p db))
                      = contactBody (contactId (primaryOf (linkedOf e p (rows db)))) es ps ss"
    by blast
  with \<open>fst (fst (identify noFailure now e p db)) = 200\<close>
  have c: "\<exists>es ps ss. fst (identify noFailure now e p db)
                      = (200, contactBody (contactId (primaryOf (linkedOf e p (rows db)))) es ps ss)"
    by (metis prod.collapse)
  show ?thesis using a b c by blast
qed

text \<open>
  C10. A request whose email is the empty string and whose phone number is a non-empty
  string \<open>v\<close> is not answered with status 400, whatever the store rejects. The first call
  it makes is the seed lookup \<^verbatim>\<open>findMany({ where: { OR: [{ email: "" }, { phoneNumber: v }] } })\<close>,
  whose seeds are the rows with the email \<^verbatim>\<open>""\<close> or the phone number \<open>v\<close>; and every row of
  the table afterwards either has the identifier of a row that was there before or
  carries the email \<^verbatim>\<open>""\<close> and the phone number \<open>v\<close> as given.

  The answer depends on those seeds. When no store call fails and no row has the email
  \<^verbatim>\<open>""\<close> or the phone number \<open>v\<close>, the request is answered with status 200 and creates one
  primary that stores the email \<^verbatim>\<open>""\<close> and the phone number \<open>v\<close>, leaving every other row
  as it was. When some row has one of them, no primary is created: the rows considered are
  those sharing a value with a seed, the answer names the oldest of them, and a
  secondary storing the email \<^verbatim>\<open>""\<close> and the phone number \<open>v\<close> is added exactly when the
  request brings new information.

  The same holds with the roles of email and phone number swapped.
\<close>

theorem empty_string_is_a_value:
  assumes "v \<noteq> []"
  shows "fst (fst (identify fails now (Some []) (Some v) db)) \<noteq> 400
    \<and> (\<exists>rest. calls (snd (identify fails now (Some []) (Some v) db))
                = calls db @ FindMany [EmailEq [], PhoneNumberEq v] # rest)
    \<and> seedsOf (Some []) (Some v) (rows db)
        = filter (\<lambda>c. email c = Some [] \<or> phoneNumber c = Some v) (rows db)
    \<and> (\<forall>r \<in> set (rows (snd (identify fails now (Some []) (Some v) db))).
          contactId r \<in> contactId ` set (rows db) \<or> (email r = Some [] \<and> phoneNumber r = Some v))
    \<and> (seedsOf (Some []) (Some v) (rows db) = [] \<longrightarrow>
          identify noFailure now (Some []) (Some v) db =
            ((200, contactBody (nextId db) [[]] [v] []),
             db\<lparr>rows := rows db @ [\<lparr>contactId = nextId db, email = Some [], phoneNumber = Some v,
                                     linkedId = None, linkPrecedence = Primary, createdAt = now\<rparr>],
                nextId := nextId db + 1,
                calls := calls db @ [FindMany [EmailEq [], PhoneNumberEq v],
                                      Create (Some []) (Some v) Primary None]\<rparr>))
    \<and> (seedsOf (Some []) (Some v) (rows db) \<noteq> [] \<longrightarrow>
          linkedOf (Some []) (Some v) (rows db)
            = filter (\<lambda>d. \<exists>s \<in> set (seedsOf (Some []) (Some v) (rows db)). sharesWith s d) (rows db)
          \<and> rows (snd (identify noFailure now (Some []) (Some v) db)) =
              map (downgraded noFailure
                     (toDowngrade (linkedOf (Some []) (Some v) (rows db))
                                  (primaryOf (linkedOf (Some []) (Some v) (rows db))))
                     (contactId (primaryOf (linkedOf (Some []) (Some v) (rows db))))) (rows db)
              @ (if introducesNewInfo (Some []) (Some v) (linkedOf (Some []) (Some v) (rows db))
                 then [\<lparr>contactId = nextId db, email = Some [], phoneNumber = Some v,
                         linkedId = Some (contactId (primaryOf (linkedOf (Some []) (Some v) (rows db)))),
                         linkPrecedence = Secondary, createdAt = now\<rparr>]
                 else [])
          \<and> (\<exists>es ps ss. fst (identify noFailure now (Some []) (Some v) db)
                 = (200, contactBody (contactId (primaryOf (linkedOf (Some []) (Some v) (rows db))))
                           es ps ss)))
    \<and> fst (fst (identify fails now (Some v) (Some []) db)) \<noteq> 400
    \<and> (\<exists>rest. calls (snd (identify fails now (Some v) (Some []) db))
                = calls db @ FindMany [EmailEq v, PhoneNumberEq []] # rest)
    \<and> seedsOf (Some v) (Some []) (rows db)
        = filter (\<lambda>c. email c = Some v \<or> phoneNumber c = Some []) (rows db)
    \<and> (\<forall>r \<in> set (rows (snd (identify fails now (Some v) (Some []) db))).
          contactId r \<in> contactId ` set (rows db) \<or> (email r = Some v \<and> phoneNumber r = Some []))
    \<and> (seedsOf (Some v) (Some []) (rows db) = [] \<longrightarrow>
          identify noFailure now (Some v) (Some []) db =
            ((200, contactBody (nextId db) [v] [[]] []),
             db\<lparr>rows := rows db @ [\<lparr>contactId = nextId db, email = Some v, phoneNumber = Some [],
                                     linkedId = None, linkPrecedence = Primary, createdAt = now\<rparr>],
                nextId := nextId db + 1,
                calls := calls db @ [FindMany [EmailEq v, PhoneNumberEq []],
                                      Create (Some v) (Some []) Primary None]\<rparr>))
    \<and> (seedsOf (Some v) (Some []) (rows db) \<noteq> [] \<longrightarrow>
          linkedOf (Some v) (Some []) (rows db)
            = filter (\<lambda>d. \<exists>s \<in> set (seedsOf (Some v) (Some []) (rows db)). sharesWith s d) (rows db)
          \<and> rows (snd (identify noFailure now (Some v) (Some []) db)) =
              map (downgraded noFailure
                     (toDowngrade (linkedOf (Some v) (Some []) (rows db))
                                  (primaryOf (linkedOf (Some v) (Some []) (rows db))))
                     (contactId (primaryOf (linkedOf (Some v) (Some []) (rows db))))) (rows db)
              @ (if introducesNewInfo (Some v) (Some []) (linkedOf (Some v) (Some []) (rows db))
                 then [\<lparr>contactId = nextId db, email = Some v, phoneNumber = Some [],
                         linkedId = Some (contactId (primaryOf (linkedOf (Some v) (Some []) (rows db)))),
                         linkPrecedence = Secondary, createdAt = now\<rparr>]
                 else [])
          \<and> (\<exists>es ps ss. fst (identify noFailure now (Some v) (Some []) db)
                 = (200, contactBody (contactId (primaryOf (linkedOf (Some v) (Some []) (rows db))))
                           es ps ss)))"
proof -
  have v1: "truthy (Some []) \<or> truthy (Some v)" and v2: "truthy (Some v) \<or> truthy (Some [])"
    using assms by (simp_all add: truthy_def)
  have w1: "buildWhereOrForSingleLookup (Some []) (Some v) = [EmailEq [], PhoneNumberEq v]"
    and w2: "buildWhereOrForSingleLookup (Some v) (Some []) = [EmailEq v, PhoneNumberEq []]"
    by (simp_all add: buildWhereOrForSingleLookup_def)
  have u: "uniqueNonNull [Some []] = [[]]" "uniqueNonNull [Some v] = [v]"
    by (simp_all add: uniqueNonNull_def)
  have a1: "fst (fst (identify fails now (Some []) (Some v) db)) \<noteq> 400"
    using identify_valid_status [OF v1, of fails now db] by auto
  have a2: "fst (fst (identify fails now (Some v) (Some []) db)) \<noteq> 400"
    using identify_valid_status [OF v2, of fails now db] by auto
  have b1: "\<exists>rest. calls (snd (identify fails now (Some []) (Some v) db))
                = calls db @ FindMany [EmailEq [], PhoneNumberEq v] # rest"
    using identify_first_call [OF v1, of fails now db] unfolding w1 .
  have b2: "\<exists>rest. calls (snd (identify fails now (Some v) (Some []) db))
                = calls db @ FindMany [EmailEq v, PhoneNumberEq []] # rest"
    using identify_first_call [OF v2, of fails now db] unfolding w2 .
  have c1: "seedsOf (Some []) (Some v) (rows db)
        = filter (\<lambda>c. email c = Some [] \<or> phoneNumber c = Some v) (rows db)"
    unfolding seedsOf_def w1 by (rule filter_cong [OF refl]) (simp add: matchesOR_def)
  have c2: "seedsOf (Some v) (Some []) (rows db)
        = filter (\<lambda>c. email c = Some v \<or> phoneNumber c = Some []) (rows db)"
    unfolding seedsOf_def w2 by (rule filter_cong [OF refl]) (simp add: matchesOR_def)
  have d1: "\<forall>r \<in> set (rows (snd (identify fails now (Some []) (Some v) db))).
          contactId r \<in> contactId ` set (rows db) \<or> (email r = Some [] \<and> phoneNumber r = Some v)"
    using identify_rows_origin by blast
  have d2: "\<forall>r \<in> set (rows (snd (identify fails now (Some v) (Some []) db))).
          contactId r \<in> contactId ` set (rows db) \<or> (email r = Some v \<and> phoneNumber r = Some [])"
    using identify_rows_origin by blast
  note e1 = identify_noFailure_no_seeds [OF v1, of db now, unfolded w1 u]
  note e2 = identify_noFailure_no_seeds [OF v2, of db now, unfolded w2 u]
  note f1 = identify_noFailure_seeds [OF v1, of db now]
  note f2 = identify_noFailure_seeds [OF v2, of db now]
  show ?thesis
    by (intro conjI impI a1 b1 c1 d1 a2 b2 c2 d2 e1 e2 conjunct1 [OF f1] conjunct1 [OF f2]
          conjunct1 [OF conjunct2 [OF f1]] conjunct1 [OF conjunct2 [OF f2]]
          conjunct2 [OF conjunct2 [OF f1]] conjunct2 [OF conjunct2 [OF f2]])
qed

text \<open>
  On the store with one unrelated row the request \<^verbatim>\<open>{email: "", phoneNumber: "5"}\<close> has
  no seed and creates the primary 2, whose email is the empty string. On the store whose
  row 1 has the empty string for an email, the same request finds row 1 as its seed,
  answers with primary 1 and adds the secondary 3, which stores the empty string again;
  the unrelated row 2 is untouched. On the store whose row has the empty string for a
  phone number, a request with a new email and that phone number does the same.
\<close>

theorem empty_string_is_a_value_witness:
  "''5'' \<noteq> [] \<and> ''z'' \<noteq> []
   \<and> seedsOf (Some []) (Some ''5'') (rows knownPhoneStore) = []
   \<and> identify noFailure 2 (Some []) (Some ''5'') knownPhoneStore
       = ((200, contactBody 2 [[]] [''5''] []),
          \<lparr>rows = [\<lparr>contactId = 1, email = Some ''a'', phoneNumber = Some ''123'', linkedId = None,
                     linkPrecedence = Primary, createdAt = 1\<rparr>,
                   \<lparr>contactId = 2, email = Some [], phoneNumber = Some ''5'', linkedId = None,
                     linkPrecedence = Primary, createdAt = 2\<rparr>],
            nextId = 3,
            calls = [FindMany [EmailEq [], PhoneNumberEq ''5''],
                     Create (Some []) (Some ''5'') Primary None]\<rparr>)
   \<and> seedsOf (Some []) (Some ''5'') (rows emptyEmailStore) \<noteq> []
   \<and> identify noFailure 3 (Some []) (Some ''5'') emptyEmailStore
       = ((200, contactBody 1 [[]] [''7'', ''5''] [3]),
          \<lparr>rows = [\<lparr>contactId = 1, email = Some [], phoneNumber = Some ''7'', linkedId = None,
                     linkPrecedence = Primary, createdAt = 1\<rparr>,
                   \<lparr>contactId = 2, email = Some ''b'', phoneNumber = Some ''8'', linkedId = None,
                     linkPrecedence = Primary, createdAt = 2\<rparr>,
                   \<lparr>contactId = 3, email = Some [], phoneNumber = Some ''5'', linkedId = Some 1,
                     linkPrecedence = Secondary, createdAt = 3\<rparr>],
            nextId = 4,
            calls = [FindMany [EmailEq [], PhoneNumberEq ''5''],
                     FindMany [EmailIn [[]], PhoneNumberIn [''7'']],
                     Create (Some []) (Some ''5'') Secondary (Some 1),
                     FindMany [IdEq 1, LinkedIdEq 1]]\<rparr>)
   \<and> seedsOf (Some ''z'') (Some []) (rows emptyPhoneStore) \<noteq> []
   \<and> identify noFailure 2 (Some ''z'') (Some []) emptyPhoneStore
       = ((200, contactBody 1 [''y'', ''z''] [[]] [2]),
          \<lparr>rows = [\<lparr>contactId = 1, email = Some ''y'', phoneNumber = Some [], linkedId = None,
                     linkPrecedence = Primary, createdAt = 1\<rparr>,
                   \<lparr>contactId = 2, email = Some ''z'', phoneNumber = Some [], linkedId = Some 1,
                     linkPrecedence = Secondary, createdAt = 2\<rparr>],
            nextId = 3,
            calls = [FindMany [EmailEq ''z'', PhoneNumberEq []],
                     FindMany [EmailIn [''y''], PhoneNumberIn [[]]],
                     Create (Some ''z'') (Some []) Secondary (Some 1),
                     FindMany [IdEq 1, LinkedIdEq 1]]\<rparr>)"
proof -
  have n: "''5'' \<noteq> []" "''z'' \<noteq> []" by simp_all
  have s1: "seedsOf (Some []) (Some ''5'') (rows knownPhoneStore) = []" by code_simp
  have s2: "seedsOf (Some []) (Some ''5'') (rows emptyEmailStore) \<noteq> []" by code_simp
  have s3: "seedsOf (Some ''z'') (Some []) (rows emptyPhoneStore) \<noteq> []" by code_simp
  from empty_string_is_a_value [OF n(1), of noFailure 2 knownPhoneStore] s1
  have r1: "identify noFailure 2 (Some []) (Some ''5'') knownPhoneStore
       = ((200, contactBody 2 [[]] [''5''] []),
          \<lparr>rows = [\<lparr>contactId = 1, email = Some ''a'', phoneNumber = Some ''123'', linkedId = None,
                     linkPrecedence = Primary, createdAt = 1\<rparr>,
                   \<lparr>contactId = 2, email = Some [], phoneNumber = Some ''5'', linkedId = None,
                     linkPrecedence = Primary, createdAt = 2\<rparr>],
            nextId = 3,
            calls = [FindMany [EmailEq [], PhoneNumberEq ''5''],
                     Create (Some []) (Some ''5'') Primary None]\<rparr>)"
    by (simp add: knownPhoneStore_def)
  have r2: "identify noFailure 3 (Some []) (Some ''5'') emptyEmailStore
       = ((200, contactBody 1 [[]] [''7'', ''5''] [3]),
          \<lparr>rows = [\<lparr>contactId = 1, email = Some [], phoneNumber = Some ''7'', linkedId = None,
                     linkPrecedence = Primary, createdAt = 1\<rparr>,
                   \<lparr>contactId = 2, email = Some ''b'', phoneNumber = Some ''8'', linkedId = None,
                     linkPrecedence = Primary, createdAt = 2\<rparr>,
                   \<lparr>contactId = 3, email = Some [], phoneNumber = Some ''5'', linkedId = Some 1,
                     linkPrecedence = Secondary, createdAt = 3\<rparr>],
            nextId = 4,
            calls = [FindMany [EmailEq [], PhoneNumberEq ''5''],
                     FindMany [EmailIn [[]], PhoneNumberIn [''7'']],
                     Create (Some []) (Some ''5'') Secondary (Some 1),
                     FindMany [IdEq 1, LinkedIdEq 1]]\<rparr>)"
    by code_simp
  have r3: "identify noFailure 2 (Some ''z'') (Some []) emptyPhoneStore
       = ((200, contactBody 1 [''y'', ''z''] [[]] [2]),
          \<lparr>rows = [\<lparr>contactId = 1, email = Some ''y'', phoneNumber = Some [], linkedId = None,
                     linkPrecedence = Primary, createdAt = 1\<rparr>,
                   \<lparr>contactId = 2, email = Some ''z'', phoneNumber = Some [], linkedId = Some 1,
                     linkPrecedence = Secondary, createdAt = 2\<rparr>],
            nextId = 3,
            calls = [FindMany [EmailEq ''z'', PhoneNumberEq []],
                     FindMany [EmailIn [''y''], PhoneNumberIn [[]]],
                     Create (Some ''z'') (Some []) Secondary (Some 1),
                     FindMany [IdEq 1, LinkedIdEq 1]]\<rparr>)"
    by code_simp
  show ?thesis using n s1 s2 s3 r1 r2 r3 by blast
qed

end
